theory Spec2Isabelle
  imports Complex_Main "HOL-Library.Sublist"
begin

section \<open>The planning pipeline of the \<open>/plan\<close> route\<close>

text \<open>
  A shallow embedding of the route handler \<^verbatim>\<open>src/app/api/plan/route.ts\<close>: priority cue
  detection, scenario selection, task normalisation, tool resolution, payload extraction,
  the sync loop and the streamed event sequence.

  Conventions of the embedding.
  \<^item> A JavaScript string is the list of its UTF-16 code units (\<open>jsstring\<close>); ASCII text is
    written \<open>js ''...''\<close>.
  \<^item> \<open>undefined\<close> and \<open>null\<close> are \<open>None\<close>; a thrown exception is \<open>Inl\<close> of its message.
  \<^item> The integers the request and plan schemas admit (\<open>z.number().int()\<close>) are \<open>int\<close>.
  \<^item> Time stamps and \<open>elapsedMs\<close> are left out of the events: they are read from the clock.
\<close>

subsection \<open>Strings\<close>

type_synonym jschar = nat
type_synonym jsstring = "nat list"

definition js :: "string \<Rightarrow> jsstring" where
  "js s = map of_char s"

text \<open>
  The characters \<open>String.prototype.trim\<close> strips and the class \<open>\s\<close> matches: ECMAScript's
  WhiteSpace and LineTerminator code points.
\<close>

definition isWhiteSpace :: "jschar \<Rightarrow> bool" where
  "isWhiteSpace c \<longleftrightarrow>
     (9 \<le> c \<and> c \<le> 13) \<or> c = 32 \<or> c = 160 \<or> c = 5760 \<or> (8192 \<le> c \<and> c \<le> 8202) \<or>
     c = 8232 \<or> c = 8233 \<or> c = 8239 \<or> c = 8287 \<or> c = 12288 \<or> c = 65279"

definition trim :: "jsstring \<Rightarrow> jsstring" where
  "trim s = rev (dropWhile isWhiteSpace (rev (dropWhile isWhiteSpace s)))"

text \<open>A string that \<open>trim\<close> leaves as it is.\<close>

definition trimmed :: "jsstring \<Rightarrow> bool" where
  "trimmed s \<longleftrightarrow> s = [] \<or> (\<not> isWhiteSpace (hd s) \<and> \<not> isWhiteSpace (last s))"

text \<open>
  \<open>String.prototype.toLowerCase\<close> belongs to the platform, and the Unicode case table it
  reads is not part of the repository: every definition that calls it takes it as the
  parameter \<open>toLowerCase\<close>, and what is proved holds for every such function.

  \<open>asciiLower\<close> is what \<open>toLowerCase\<close> returns on ASCII text (the letters \<open>A\<close> to \<open>Z\<close> are
  lowered, every other ASCII character is kept); the concrete examples, all of ASCII
  text, are evaluated with it.
\<close>

definition lowerUnit :: "jschar \<Rightarrow> jschar" where
  "lowerUnit c = (if 65 \<le> c \<and> c \<le> 90 then c + 32 else c)"

definition asciiLower :: "jsstring \<Rightarrow> jsstring" where
  "asciiLower s = map lowerUnit s"

text \<open>Truthiness of an optional string: \<open>undefined\<close> and \<open>""\<close> are falsy.\<close>

definition truthyStr :: "jsstring option \<Rightarrow> bool" where
  "truthyStr v = (case v of None \<Rightarrow> False | Some s \<Rightarrow> s \<noteq> [])"

subsection \<open>Priority cues in the prompt\<close>

text \<open>
  The three patterns of \<open>detectPriorityFromPrompt\<close> end in \<open>\s*([0-4])\<close>. No digit is
  white space, so the greedy \<open>\s*\<close> never gives a character back: the suffix matches where
  the first character after the white space is a digit from 0 to 4, which is the capture.
\<close>

definition isDigit04 :: "jschar \<Rightarrow> bool" where
  "isDigit04 c \<longleftrightarrow> 48 \<le> c \<and> c \<le> 52"

definition isLowerAlnum :: "jschar \<Rightarrow> bool" where
  "isLowerAlnum c \<longleftrightarrow> (97 \<le> c \<and> c \<le> 122) \<or> (48 \<le> c \<and> c \<le> 57)"

definition cueTail :: "jsstring \<Rightarrow> jschar option" where
  "cueTail s =
     (case dropWhile isWhiteSpace s of
        [] \<Rightarrow> None
      | d # _ \<Rightarrow> if isDigit04 d then Some d else None)"

text \<open>
  \<open>/(?:^|[^a-z0-9])p\s*([0-4])/\<close> tried at one position: the alternative \<open>^\<close> first (only at
  the start of the input), then a character outside \<open>[a-z0-9]\<close>.
\<close>

definition matchAtP :: "bool \<Rightarrow> jsstring \<Rightarrow> jschar option" where
  "matchAtP atStart s =
     (case (if atStart then (case s of c # r \<Rightarrow> if c = 112 then cueTail r else None | [] \<Rightarrow> None)
            else None) of
        Some d \<Rightarrow> Some d
      | None \<Rightarrow>
          (case s of
             c # c' # r \<Rightarrow> if \<not> isLowerAlnum c \<and> c' = 112 then cueTail r else None
           | _ \<Rightarrow> None))"

text \<open>\<open>String.prototype.match\<close> without the \<open>g\<close> flag: the leftmost position that matches.\<close>

fun execP :: "bool \<Rightarrow> jsstring \<Rightarrow> jschar option" where
  "execP atStart [] = None"
| "execP atStart (c # cs) =
     (case matchAtP atStart (c # cs) of
        Some d \<Rightarrow> Some d
      | None \<Rightarrow> execP False cs)"

text \<open>\<open>/priority\s*([0-4])/\<close> and the localized pattern: a literal, then the suffix.\<close>

definition matchAtLit :: "jsstring \<Rightarrow> jsstring \<Rightarrow> jschar option" where
  "matchAtLit lit s =
     (if take (length lit) s = lit then cueTail (drop (length lit) s) else None)"

fun execLit :: "jsstring \<Rightarrow> jsstring \<Rightarrow> jschar option" where
  "execLit lit [] = matchAtLit lit []"
| "execLit lit (c # cs) =
     (case matchAtLit lit (c # cs) of
        Some d \<Rightarrow> Some d
      | None \<Rightarrow> execLit lit cs)"

text \<open>The literal of the third pattern: U+4F18, U+5148, U+7EA7.\<close>

definition localizedPriorityWord :: jsstring where
  "localizedPriorityWord = [20248, 20808, 32423]"

definition mapPriorityCueToApi :: "jsstring \<Rightarrow> int option" where
  "mapPriorityCueToApi signal =
     (if signal = js ''0'' \<or> signal = js ''1'' then Some 4
      else if signal = js ''2'' then Some 3
      else if signal = js ''3'' then Some 2
      else if signal = js ''4'' then Some 1
      else None)"

definition patterns :: "(jsstring \<Rightarrow> jschar option) list" where
  "patterns = [execP True, execLit (js ''priority''), execLit localizedPriorityWord]"

text \<open>
  The loop over the patterns: a pattern that does not match, or whose capture maps to a
  falsy priority, is passed over.
\<close>

fun detectLoop :: "(jsstring \<Rightarrow> jschar option) list \<Rightarrow> jsstring \<Rightarrow> int option" where
  "detectLoop [] normalized = None"
| "detectLoop (pattern # rest) normalized =
     (case pattern normalized of
        None \<Rightarrow> detectLoop rest normalized
      | Some d \<Rightarrow>
          (case mapPriorityCueToApi [d] of
             None \<Rightarrow> detectLoop rest normalized
           | Some priority \<Rightarrow>
               if priority \<noteq> 0 then Some priority else detectLoop rest normalized))"

definition detectPriorityFromPrompt :: "(jsstring \<Rightarrow> jsstring) \<Rightarrow> jsstring \<Rightarrow> int option" where
  "detectPriorityFromPrompt toLowerCase prompt = detectLoop patterns (toLowerCase prompt)"

text \<open>
  What a cue is, said without the matcher: the prompt, in lower case, splits into a prefix,
  the cue word, white space, a digit from 0 to 4 and a rest; for the word \<open>p\<close> the prefix is
  empty or ends outside \<open>[a-z0-9]\<close>.
\<close>

definition cueAt :: "bool \<Rightarrow> jsstring \<Rightarrow> jsstring \<Rightarrow> jschar \<Rightarrow> bool" where
  "cueAt guarded word normalized d \<longleftrightarrow>
     (\<exists>pre ws post.
        normalized = pre @ word @ ws @ d # post \<and>
        (guarded \<longrightarrow> pre = [] \<or> \<not> isLowerAlnum (last pre)) \<and>
        list_all isWhiteSpace ws \<and> isDigit04 d)"

definition hasCue :: "jsstring \<Rightarrow> bool" where
  "hasCue normalized \<longleftrightarrow>
     (\<exists>d. cueAt True (js ''p'') normalized d \<or> cueAt False (js ''priority'') normalized d \<or>
          cueAt False localizedPriorityWord normalized d)"

text \<open>The capture of the first pattern, in the source's order, that matches.\<close>

definition firstCue :: "jsstring \<Rightarrow> jschar option" where
  "firstCue normalized =
     (case execP True normalized of
        Some d \<Rightarrow> Some d
      | None \<Rightarrow>
          (case execLit (js ''priority'') normalized of
             Some d \<Rightarrow> Some d
           | None \<Rightarrow> execLit localizedPriorityWord normalized))"

subsection \<open>Request, intent and scenario\<close>

text \<open>The request body after \<open>requestSchema\<close> (the parameter \<open>input\<close> of the source).\<close>

record PlanRequestBody =
  in_prompt :: jsstring
  in_timezone :: "jsstring option"
  in_due :: "jsstring option"
  in_preferences :: "jsstring option"
  in_labels :: "jsstring list option"
  in_priority :: "int option"
  in_maxTasks :: int

datatype IntentType = single_reminder | multi_step_plan | recipe_plan | general_plan

record IntentDecision =
  d_intent :: IntentType
  d_summary :: "jsstring option"
  d_days :: "int option"
  d_keywords :: "jsstring list option"

record PlanScenario =
  intent :: IntentType
  maxTasks :: int
  directives :: "jsstring list"
  temperature :: real

definition MIN_TASKS :: int where
  "MIN_TASKS = 1"

definition MAX_TASKS :: int where
  "MAX_TASKS = 10"

definition clampMax :: "int \<Rightarrow> int" where
  "clampMax v = min (max v MIN_TASKS) MAX_TASKS"

text \<open>The decimal digits a template literal prints for an integer.\<close>

fun natDigits :: "nat \<Rightarrow> jsstring" where
  "natDigits n = (if n < 10 then [48 + n] else natDigits (n div 10) @ [48 + n mod 10])"

definition intToString :: "int \<Rightarrow> jsstring" where
  "intToString i = (if i < 0 then 45 # natDigits (nat (- i)) else natDigits (nat i))"

definition determineScenario :: "IntentDecision \<Rightarrow> PlanRequestBody \<Rightarrow> PlanScenario" where
  "determineScenario decision input =
     (case d_intent decision of
        single_reminder \<Rightarrow>
          \<lparr>intent = single_reminder,
           maxTasks = 1,
           directives =
             [js ''Return exactly one Todoist task that mirrors the reminder wording.'',
              js ''Do not invent extra subtasks or routines; stay literal to the request.''],
           temperature = 0.1\<rparr>
      | recipe_plan \<Rightarrow>
          (let requestedDays = (case d_days decision of None \<Rightarrow> 3 | Some n \<Rightarrow> n);
               days = min (max requestedDays 1) 5;
               maxTasks = clampMax (days * 2)
           in \<lparr>intent = recipe_plan,
               maxTasks = maxTasks,
               directives =
                 [js ''Produce meal-prep tasks covering '' @ intToString days @
                    js '' day(s). Each task must mention the day and meal (Breakfast/Lunch/Dinner).'',
                  js ''Incorporate the provided ingredients creatively and avoid repeating the same dish twice in a row.'',
                  js ''Mention which ingredients are used inside the task description so the cook can verify coverage.''],
               temperature = 0.35\<rparr>)
      | multi_step_plan \<Rightarrow>
          \<lparr>intent = multi_step_plan,
           maxTasks = clampMax (max 2 (in_maxTasks input)),
           directives =
             [js ''Break the day into distinct steps with clear sequencing or time anchors.'',
              js ''Reference dependencies or prerequisites when relevant so the user can follow the workflow.''],
           temperature = 0.25\<rparr>
      | general_plan \<Rightarrow>
          \<lparr>intent = general_plan,
           maxTasks = clampMax (in_maxTasks input),
           directives =
             [js ''Balance the schedule so it feels focused yet achievable.'',
              js ''Only add extra tasks when the request explicitly implies multiple actions.''],
           temperature = 0.2\<rparr>)"

text \<open>The spec's words for the bound: \<open>clamp(x, 1..10)\<close>.\<close>

definition clampSpec :: "int \<Rightarrow> int \<Rightarrow> int \<Rightarrow> int" where
  "clampSpec lo hi x = (if x < lo then lo else if hi < x then hi else x)"

subsection \<open>Tasks and their normalisation\<close>

text \<open>The due object of a planned and of a normalized task has the same three fields.\<close>

record TaskDue =
  due_string :: "jsstring option"
  due_date :: "jsstring option"
  due_datetime :: "jsstring option"

record PlannedTask =
  pt_title :: jsstring
  pt_description :: "jsstring option"
  pt_priority :: "int option"
  pt_labels :: "jsstring list option"
  pt_projectId :: "jsstring option"
  pt_project :: "jsstring option"
  pt_due :: "TaskDue option"

record NormalizedTask =
  title :: jsstring
  description :: "jsstring option"
  priority :: "int option"
  labels :: "jsstring list option"
  due :: "TaskDue option"
  projectId :: "jsstring option"
  projectName :: "jsstring option"

record TodoistProjectSummary =
  p_id :: jsstring
  p_name :: jsstring
  isInbox :: bool

record TodoistLabelSummary =
  l_id :: jsstring
  l_name :: jsstring

record TodoistMetadata =
  md_projects :: "TodoistProjectSummary list"
  md_labels :: "TodoistLabelSummary list"

definition emptyDue :: TaskDue where
  "emptyDue = \<lparr>due_string = None, due_date = None, due_datetime = None\<rparr>"

text \<open>Optional chaining \<open>fromTask?.field\<close>.\<close>

definition chain :: "'a option \<Rightarrow> ('a \<Rightarrow> 'b option) \<Rightarrow> 'b option" where
  "chain v field = (case v of None \<Rightarrow> None | Some x \<Rightarrow> field x)"

definition selectDue :: "TaskDue option \<Rightarrow> jsstring option \<Rightarrow> TaskDue option" where
  "selectDue fromTask fallback =
     (if fromTask = None \<and> \<not> truthyStr fallback then None
      else if truthyStr (chain fromTask due_datetime)
        then Some (emptyDue\<lparr>due_datetime := chain fromTask due_datetime\<rparr>)
      else if truthyStr (chain fromTask due_date)
        then Some (emptyDue\<lparr>due_date := chain fromTask due_date\<rparr>)
      else if truthyStr (chain fromTask due_string)
        then Some (emptyDue\<lparr>due_string := chain fromTask due_string\<rparr>)
      else if truthyStr fallback
        then Some (emptyDue\<lparr>due_string := fallback\<rparr>)
      else None)"

text \<open>How many representations a due object holds.\<close>

definition representations :: "TaskDue \<Rightarrow> nat" where
  "representations d = length (filter truthyStr [due_datetime d, due_date d, due_string d])"

text \<open>\<open>clampPriority\<close>; on an integer \<open>Math.round\<close> is the identity.\<close>

definition clampPriority :: "int option \<Rightarrow> int option" where
  "clampPriority p = (case p of None \<Rightarrow> None | Some v \<Rightarrow> Some (min 4 (max 1 v)))"

text \<open>\<open>a ?? b\<close>.\<close>

definition orElse :: "'a option \<Rightarrow> 'a option \<Rightarrow> 'a option" where
  "orElse a b = (case a of None \<Rightarrow> b | Some x \<Rightarrow> Some x)"

text \<open>\<open>.filter(Boolean) as string[]\<close>: \<open>undefined\<close> and the empty string are dropped.\<close>

fun keepTruthy :: "jsstring option list \<Rightarrow> jsstring list" where
  "keepTruthy [] = []"
| "keepTruthy (None # rest) = keepTruthy rest"
| "keepTruthy (Some s # rest) = (if s = [] then keepTruthy rest else s # keepTruthy rest)"

text \<open>
  The loop of \<open>dedupeLabels\<close>, with its set \<open>seen\<close> and its array \<open>result\<close>; it breaks when
  the fifth label is pushed.
\<close>

fun dedupeLoop ::
  "(jsstring \<Rightarrow> jsstring) \<Rightarrow> jsstring list \<Rightarrow> jsstring set \<Rightarrow> jsstring list \<Rightarrow> jsstring list" where
  "dedupeLoop toLowerCase [] seen result = result"
| "dedupeLoop toLowerCase (label # rest) seen result =
     (let trimmed = trim label in
      if trimmed = [] \<or> toLowerCase trimmed \<in> seen then dedupeLoop toLowerCase rest seen result
      else if length (result @ [trimmed]) = 5 then result @ [trimmed]
      else dedupeLoop toLowerCase rest (insert (toLowerCase trimmed) seen) (result @ [trimmed]))"

definition dedupeLabels ::
  "(jsstring \<Rightarrow> jsstring) \<Rightarrow> jsstring list option \<Rightarrow> jsstring list option" where
  "dedupeLabels toLowerCase ls =
     (case ls of
        None \<Rightarrow> None
      | Some xs \<Rightarrow>
          if xs = [] then None
          else (let result = dedupeLoop toLowerCase xs {} [] in if result = [] then None else Some result))"

text \<open>The callback of \<open>source.map\<close> in \<open>normalizeLabels\<close>.\<close>

definition canonicalLabel ::
  "(jsstring \<Rightarrow> jsstring) \<Rightarrow> TodoistMetadata \<Rightarrow> jsstring \<Rightarrow> jsstring option" where
  "canonicalLabel toLowerCase context label =
     (let trimmed = trim label in
      if trimmed = [] then None
      else (case find (\<lambda>entry. toLowerCase (l_name entry) = toLowerCase trimmed) (md_labels context) of
              Some canonical \<Rightarrow> Some (l_name canonical)
            | None \<Rightarrow> Some trimmed))"

definition nonEmptyList :: "'a list option \<Rightarrow> bool" where
  "nonEmptyList v = (case v of None \<Rightarrow> False | Some xs \<Rightarrow> xs \<noteq> [])"

text \<open>\<open>preferred?.length ? preferred : fallback ?? inferred\<close>.\<close>

definition labelSource ::
  "jsstring list option \<Rightarrow> jsstring list option \<Rightarrow> jsstring list option \<Rightarrow> jsstring list option" where
  "labelSource preferred fallback inferred =
     (if nonEmptyList preferred then preferred else orElse fallback inferred)"

definition normalizeLabels ::
  "(jsstring \<Rightarrow> jsstring) \<Rightarrow> jsstring list option \<Rightarrow> jsstring list option \<Rightarrow> TodoistMetadata \<Rightarrow> jsstring list option
     \<Rightarrow> jsstring list option" where
  "normalizeLabels toLowerCase preferred fallback context inferred =
     (case labelSource preferred fallback inferred of
        None \<Rightarrow> None
      | Some source \<Rightarrow>
          if source = [] then None
          else dedupeLabels toLowerCase
                 (Some (keepTruthy (map (canonicalLabel toLowerCase context) source))))"

text \<open>
  The spec's words for the result of deduplication: of the labels that agree up to case,
  the one seen first is kept, in the order of the first occurrences.
\<close>

fun firstSeenFrom ::
  "(jsstring \<Rightarrow> jsstring) \<Rightarrow> jsstring set \<Rightarrow> jsstring list \<Rightarrow> jsstring list" where
  "firstSeenFrom toLowerCase seen [] = []"
| "firstSeenFrom toLowerCase seen (x # xs) =
     (if toLowerCase x \<in> seen then firstSeenFrom toLowerCase seen xs
      else x # firstSeenFrom toLowerCase (insert (toLowerCase x) seen) xs)"

definition firstSeen :: "(jsstring \<Rightarrow> jsstring) \<Rightarrow> jsstring list \<Rightarrow> jsstring list" where
  "firstSeen toLowerCase xs = firstSeenFrom toLowerCase {} xs"

record ProjectReference =
  ref_id :: "jsstring option"
  ref_name :: jsstring

definition resolveProjectReference ::
  "(jsstring \<Rightarrow> jsstring) \<Rightarrow> PlannedTask \<Rightarrow> TodoistMetadata \<Rightarrow> TodoistProjectSummary option \<Rightarrow> ProjectReference option" where
  "resolveProjectReference toLowerCase task context inferred =
     (if md_projects context = [] \<and> \<not> truthyStr (pt_projectId task) \<and>
         \<not> truthyStr (pt_project task) \<and> inferred = None then None
      else
        (case (if truthyStr (pt_projectId task) then pt_projectId task else None) of
           Some pid \<Rightarrow>
             (let known = find (\<lambda>project. p_id project = pid) (md_projects context) in
              Some \<lparr>ref_id = Some pid,
                    ref_name =
                      (case orElse (map_option p_name known) (pt_project task) of
                         Some name \<Rightarrow> name
                       | None \<Rightarrow> pid)\<rparr>)
         | None \<Rightarrow>
             (case (if truthyStr (pt_project task) then pt_project task else None) of
                Some project \<Rightarrow>
                  (let normalized = trim project in
                   case find (\<lambda>project. toLowerCase (p_name project) = toLowerCase normalized)
                          (md_projects context) of
                     Some known \<Rightarrow> Some \<lparr>ref_id = Some (p_id known), ref_name = p_name known\<rparr>
                   | None \<Rightarrow> Some \<lparr>ref_id = None, ref_name = normalized\<rparr>)
              | None \<Rightarrow>
                  map_option (\<lambda>p. \<lparr>ref_id = Some (p_id p), ref_name = p_name p\<rparr>) inferred)))"

definition normalizeTask ::
  "(jsstring \<Rightarrow> jsstring) \<Rightarrow> PlannedTask \<Rightarrow> PlanRequestBody \<Rightarrow> TodoistMetadata \<Rightarrow> int option
     \<Rightarrow> TodoistProjectSummary option \<Rightarrow> jsstring list option \<Rightarrow> NormalizedTask" where
  "normalizeTask toLowerCase task input context priorityHint inferredProject inferredLabels =
     (let project = resolveProjectReference toLowerCase task context inferredProject in
      \<lparr>title = trim (pt_title task),
       description = map_option trim (pt_description task),
       priority = clampPriority (orElse (orElse (pt_priority task) priorityHint) (in_priority input)),
       labels = normalizeLabels toLowerCase (pt_labels task) (in_labels input) context inferredLabels,
       due = selectDue (pt_due task) (in_due input),
       projectId = chain project ref_id,
       projectName = map_option ref_name project\<rparr>)"

subsection \<open>Tool responses and array payloads\<close>

text \<open>
  A JSON value; an object is the list of its own properties. \<open>undefined\<close> is \<open>None\<close> of
  \<open>json option\<close>.
\<close>

datatype json =
    JNull
  | JBool bool
  | JNum real
  | JStr jsstring
  | JArr "json list"
  | JObj "(jsstring \<times> json) list"

fun truthy :: "json option \<Rightarrow> bool" where
  "truthy None = False"
| "truthy (Some JNull) = False"
| "truthy (Some (JBool b)) = b"
| "truthy (Some (JNum n)) = (n \<noteq> 0)"
| "truthy (Some (JStr s)) = (s \<noteq> [])"
| "truthy (Some (JArr xs)) = True"
| "truthy (Some (JObj props)) = True"

text \<open>
  The result of \<open>client.callTool\<close>, at the shape the source casts it to: optional
  structured content under either spelling, and optional content blocks.
\<close>

record ContentBlock =
  b_type :: "jsstring option"
  b_text :: "jsstring option"
  b_json :: "json option"
  b_mimeType :: "jsstring option"

record CallToolResult =
  structuredContent :: "json option"
  structured_content :: "json option"
  content :: "ContentBlock list option"

definition DEFAULT_COLLECTION_KEYS :: "jsstring list" where
  "DEFAULT_COLLECTION_KEYS =
     [js ''projects'', js ''labels'', js ''data'', js ''items'', js ''results'',
      js ''structuredContent'']"

definition extractStructuredContent :: "CallToolResult \<Rightarrow> json option" where
  "extractStructuredContent response =
     (case structuredContent response of
        Some v \<Rightarrow> Some v
      | None \<Rightarrow> structured_content response)"

text \<open>
  \<open>extractToolJsonBlock\<close> returns the \<open>json\<close> of the first block of type \<open>json\<close>, or else the
  text of the first block of MIME type \<open>application/json\<close>; a text is a \<open>JStr\<close> here.
\<close>

definition extractToolJsonBlock :: "CallToolResult \<Rightarrow> json option" where
  "extractToolJsonBlock message =
     (let jsonEntry = chain (content message) (find (\<lambda>item. b_type item = Some (js ''json''))) in
      case chain jsonEntry b_json of
        Some v \<Rightarrow> Some v
      | None \<Rightarrow>
          (let jsonTextEntry =
                 chain (content message)
                   (find (\<lambda>item. b_mimeType item = Some (js ''application/json'')))
           in map_option JStr (chain jsonTextEntry b_text)))"

text \<open>\<open>indexOf\<close> and \<open>lastIndexOf\<close> of a substring; \<open>None\<close> is \<open>-1\<close>.\<close>

fun indexOf :: "jsstring \<Rightarrow> jsstring \<Rightarrow> nat option" where
  "indexOf pat [] = (if pat = [] then Some 0 else None)"
| "indexOf pat (c # cs) =
     (if take (length pat) (c # cs) = pat then Some 0 else map_option Suc (indexOf pat cs))"

fun lastIndexOf :: "jsstring \<Rightarrow> jsstring \<Rightarrow> nat option" where
  "lastIndexOf pat [] = (if pat = [] then Some 0 else None)"
| "lastIndexOf pat (c # cs) =
     (case lastIndexOf pat cs of
        Some i \<Rightarrow> Some (Suc i)
      | None \<Rightarrow> if take (length pat) (c # cs) = pat then Some 0 else None)"

definition startsWith :: "jsstring \<Rightarrow> jsstring \<Rightarrow> bool" where
  "startsWith s pat \<longleftrightarrow> take (length pat) s = pat"

text \<open>\<open>s.slice(from, to)\<close> for indices within the string.\<close>

definition slice :: "jsstring \<Rightarrow> nat \<Rightarrow> nat \<Rightarrow> jsstring" where
  "slice s from to = take (to - from) (drop from s)"

definition stripJsonFence :: "jsstring \<Rightarrow> jsstring" where
  "stripJsonFence payload =
     (let trimmed = trim payload in
      if \<not> startsWith trimmed (js ''```'') then trimmed
      else (case lastIndexOf (js ''```'') trimmed of
              None \<Rightarrow> trimmed
            | Some fenceEnd \<Rightarrow>
                (case indexOf [10] trimmed of
                   None \<Rightarrow> trimmed
                 | Some firstLineBreak \<Rightarrow> trim (slice trimmed (firstLineBreak + 1) fenceEnd))))"

definition extractToolText :: "CallToolResult \<Rightarrow> jsstring option" where
  "extractToolText message =
     (case map_option (filter (\<lambda>item. b_type item = Some (js ''text''))) (content message) of
        None \<Rightarrow> None
      | Some textBlocks \<Rightarrow>
          if textBlocks = [] then None
          else
            (let plainTextBlock =
                   find (\<lambda>block. b_mimeType block \<noteq> Some (js ''application/json'') \<and>
                                 truthyStr (b_text block)) textBlocks;
                 target = orElse plainTextBlock (find (\<lambda>block. truthyStr (b_text block)) textBlocks)
             in if truthyStr (chain target b_text)
                then map_option stripJsonFence (chain target b_text)
                else None))"

text \<open>
  \<open>JSON.parse\<close> is a parameter: \<open>jsonParse text\<close> is the parsed value, or \<open>None\<close> where
  \<open>JSON.parse\<close> throws. Both calls in \<open>parseToolJson\<close> catch the exception and return
  \<open>undefined\<close>.
\<close>

definition parseToolJson :: "(jsstring \<Rightarrow> json option) \<Rightarrow> CallToolResult \<Rightarrow> json option" where
  "parseToolJson jsonParse response =
     (case extractStructuredContent response of
        Some structured \<Rightarrow> Some structured
      | None \<Rightarrow>
          (case extractToolJsonBlock response of
             Some (JStr jsonBlock) \<Rightarrow> jsonParse jsonBlock
           | Some jsonBlock \<Rightarrow> Some jsonBlock
           | None \<Rightarrow>
               (case extractToolText response of
                  None \<Rightarrow> None
                | Some text \<Rightarrow> if text = [] then None else jsonParse text)))"

text \<open>
  \<open>pluckArray\<close>, with its loop over the keys as \<open>pluckKeys\<close>: the keys still to try, then
  the whole key list for the nested calls.
\<close>

function pluckArray :: "json option \<Rightarrow> jsstring list \<Rightarrow> json list option"
  and pluckKeys :: "(jsstring \<times> json) list \<Rightarrow> jsstring list \<Rightarrow> jsstring list \<Rightarrow> json list option"
where
  "pluckArray v keys =
     (if \<not> truthy v then None
      else (case v of
              Some (JArr xs) \<Rightarrow> Some xs
            | Some (JObj props) \<Rightarrow> pluckKeys props keys keys
            | _ \<Rightarrow> None))"
| "pluckKeys props [] keys = None"
| "pluckKeys props (key # rest) keys =
     (case map_of props key of
        Some (JArr candidate) \<Rightarrow> Some candidate
      | Some (JObj inner) \<Rightarrow>
          (case pluckArray (Some (JObj inner)) keys of
             Some nested \<Rightarrow> Some nested
           | None \<Rightarrow> pluckKeys props rest keys)
      | _ \<Rightarrow> pluckKeys props rest keys)"
  by pat_completeness auto
termination
proof (relation "measures
    [\<lambda>x. case x of Inl (v, keys) \<Rightarrow> (case v of None \<Rightarrow> 0 | Some j \<Rightarrow> size j)
                 | Inr (props, rest, keys) \<Rightarrow> size (JObj props),
     \<lambda>x. case x of Inl (v, keys) \<Rightarrow> Suc (Suc (length keys))
                 | Inr (props, rest, keys) \<Rightarrow> Suc (length rest)]")
  fix props :: "(jsstring \<times> json) list" and key :: jsstring and rest keys :: "jsstring list"
    and x2 :: json and inner :: "(jsstring \<times> json) list"
  assume "map_of props key = Some x2" "x2 = JObj inner"
  then have "(key, JObj inner) \<in> set props" by (simp add: map_of_SomeD)
  then have "size (JObj inner) < size (JObj props)"
    by (induction props) auto
  then show "(Inl (Some (JObj inner), keys), Inr (props, key # rest, keys)) \<in> measures
    [\<lambda>x. case x of Inl (v, keys) \<Rightarrow> (case v of None \<Rightarrow> 0 | Some j \<Rightarrow> size j)
                 | Inr (props, rest, keys) \<Rightarrow> size (JObj props),
     \<lambda>x. case x of Inl (v, keys) \<Rightarrow> Suc (Suc (length keys))
                 | Inr (props, rest, keys) \<Rightarrow> Suc (length rest)]"
    by simp
qed auto

text \<open>\<open>preferredKeys ?? Array.from(DEFAULT_COLLECTION_KEYS)\<close>.\<close>

definition searchKeys :: "jsstring list option \<Rightarrow> jsstring list" where
  "searchKeys preferredKeys =
     (case preferredKeys of None \<Rightarrow> DEFAULT_COLLECTION_KEYS | Some ks \<Rightarrow> ks)"

definition extractArrayPayload ::
  "(jsstring \<Rightarrow> json option) \<Rightarrow> CallToolResult \<Rightarrow> jsstring list option \<Rightarrow> json list" where
  "extractArrayPayload jsonParse response preferredKeys =
     (let parsed = parseToolJson jsonParse response;
          keys = searchKeys preferredKeys
      in case pluckArray parsed keys of
           Some direct \<Rightarrow> direct
         | None \<Rightarrow> [])"

text \<open>What one key of the loop yields: an array, the result of the nested search, or nothing.\<close>

definition keyYield :: "(jsstring \<times> json) list \<Rightarrow> jsstring list \<Rightarrow> jsstring \<Rightarrow> json list option" where
  "keyYield props keys key =
     (case map_of props key of
        Some (JArr candidate) \<Rightarrow> Some candidate
      | Some (JObj inner) \<Rightarrow> pluckArray (Some (JObj inner)) keys
      | _ \<Rightarrow> None)"

text \<open>An array exists somewhere in the value.\<close>

fun containsArray :: "json \<Rightarrow> bool" where
  "containsArray (JArr xs) = True"
| "containsArray (JObj props) = list_ex (\<lambda>field. containsArray (snd field)) props"
| "containsArray _ = False"

subsection \<open>External calls\<close>

text \<open>
  An \<open>await\<close>ed call is a function of a state: it returns the value it resolves to
  (\<open>Inr\<close>) or the message of the error it rejects with (\<open>Inl\<close>), and the next state. The
  state of an external service is an abstract world \<open>'w\<close>; nothing is assumed of it.
\<close>

type_synonym ('s, 'a) eff = "'s \<Rightarrow> (jsstring + 'a) \<times> 's"

definition ret :: "'a \<Rightarrow> ('s, 'a) eff" where
  "ret x s = (Inr x, s)"

definition throw :: "jsstring \<Rightarrow> ('s, 'a) eff" where
  "throw msg s = (Inl msg, s)"

definition bind :: "('s, 'a) eff \<Rightarrow> ('a \<Rightarrow> ('s, 'b) eff) \<Rightarrow> ('s, 'b) eff" where
  "bind m f s = (case m s of (Inl msg, s') \<Rightarrow> (Inl msg, s') | (Inr x, s') \<Rightarrow> f x s')"

text \<open>\<open>try { m } catch (error) { handler }\<close>.\<close>

definition tryCatch :: "('s, 'a) eff \<Rightarrow> (jsstring \<Rightarrow> ('s, 'a) eff) \<Rightarrow> ('s, 'a) eff" where
  "tryCatch m handler s =
     (case m s of (Inl msg, s') \<Rightarrow> handler msg s' | (Inr x, s') \<Rightarrow> (Inr x, s'))"

definition fromSum :: "jsstring + 'a \<Rightarrow> ('s, 'a) eff" where
  "fromSum r s = (r, s)"

record Tool =
  tool_name :: jsstring
  tool_description :: "jsstring option"

text \<open>
  The MCP client. \<open>listTools\<close> resolves to \<open>toolCatalog?.tools\<close>; \<open>callTool\<close> takes the tool
  name and the argument object.
\<close>

record 'w Client =
  connect :: "('w, unit) eff"
  listTools :: "('w, Tool list option) eff"
  callTool :: "jsstring \<Rightarrow> (jsstring \<times> json) list \<Rightarrow> ('w, CallToolResult) eff"
  closeConnection :: "('w, unit) eff"

record CloudflareEnv =
  TODOIST_MCP_URL :: "jsstring option"
  TODOIST_TOKEN :: "jsstring option"

text \<open>\<open>value || ""\<close>.\<close>

definition orEmpty :: "jsstring option \<Rightarrow> jsstring" where
  "orEmpty v = (case v of None \<Rightarrow> [] | Some s \<Rightarrow> s)"

subsection \<open>The task-creation tool\<close>

text \<open>The constant \<open>preferred\<close> of \<open>resolveToolName\<close>.\<close>

definition preferredTools :: "jsstring list" where
  "preferredTools =
     [js ''create_task'', js ''add-task'', js ''add_task'', js ''create-task'', js ''add-tasks'',
      js ''add_tasks'']"

text \<open>\<open>Array.prototype.join\<close>.\<close>

fun join :: "jsstring \<Rightarrow> jsstring list \<Rightarrow> jsstring" where
  "join sep [] = []"
| "join sep [x] = x"
| "join sep (x # y # rest) = x @ sep @ join sep (y # rest)"

text \<open>The loop over the preferred names, with \<open>toolsList.some\<close> as its test.\<close>

fun firstPreferred :: "jsstring list \<Rightarrow> Tool list \<Rightarrow> jsstring option" where
  "firstPreferred [] toolsList = None"
| "firstPreferred (candidate # rest) toolsList =
     (if list_ex (\<lambda>tool. tool_name tool = candidate) toolsList then Some candidate
      else firstPreferred rest toolsList)"

definition noToolMessage :: "Tool list \<Rightarrow> jsstring \<Rightarrow> jsstring" where
  "noToolMessage toolsList href =
     (let available = join (js '', '') (map tool_name toolsList) in
      js ''No Todoist create task tool found. Available tools: '' @
      (if available = [] then js ''none'' else available) @ js '' @ '' @ href)"

text \<open>
  \<open>resolveToolName\<close>; \<open>href\<close> is \<open>url.toString()\<close>. An \<open>availableTools\<close> that is \<open>undefined\<close>
  makes it list the tools itself.
\<close>

definition resolveToolName ::
  "'w Client \<Rightarrow> jsstring \<Rightarrow> jsstring option \<Rightarrow> Tool list option \<Rightarrow> ('w, jsstring) eff" where
  "resolveToolName client href token availableTools =
     (if \<not> truthyStr token then throw (js ''TODOIST_TOKEN is required to contact the MCP server'')
      else
        bind (case availableTools of
                Some toolsList \<Rightarrow> ret toolsList
              | None \<Rightarrow>
                  bind (listTools client)
                    (\<lambda>listed. ret (case listed of None \<Rightarrow> [] | Some toolsList \<Rightarrow> toolsList)))
          (\<lambda>toolsList.
             case firstPreferred preferredTools toolsList of
               Some candidate \<Rightarrow> ret candidate
             | None \<Rightarrow> throw (noToolMessage toolsList href)))"

subsection \<open>Metadata discovery\<close>

record TodoistListToolAlias =
  a_names :: "jsstring list option"
  a_match :: "(Tool \<Rightarrow> bool) option"
  a_buildArgs :: "(jsstring \<Rightarrow> Tool \<Rightarrow> (jsstring \<times> json) list option) option"
  a_resultKeys :: "jsstring list option"

record TodoistListToolConfig =
  c_name :: jsstring
  c_args :: "(jsstring \<times> json) list option"
  c_resultKeys :: "jsstring list option"

text \<open>\<open>String.prototype.includes\<close>.\<close>

definition includesStr :: "jsstring \<Rightarrow> jsstring \<Rightarrow> bool" where
  "includesStr s sub \<longleftrightarrow> indexOf sub s \<noteq> None"

definition LIST_VERB_KEYWORDS :: "jsstring list" where
  "LIST_VERB_KEYWORDS =
     [js ''list'', js ''find'', js ''search'', js ''get'', js ''overview'', js ''browse'',
      js ''view'', js ''all'']"

definition MUTATING_KEYWORDS :: "jsstring list" where
  "MUTATING_KEYWORDS =
     [js ''add'', js ''create'', js ''update'', js ''delete'', js ''remove'', js ''complete'',
      js ''close'', js ''assign'', js ''set'', js ''comment'']"

definition buildToolText :: "(jsstring \<Rightarrow> jsstring) \<Rightarrow> Tool \<Rightarrow> jsstring" where
  "buildToolText toLowerCase tool =
     toLowerCase (tool_name tool @ js '' '' @ orEmpty (tool_description tool))"

definition matchesListTool :: "(jsstring \<Rightarrow> jsstring) \<Rightarrow> Tool \<Rightarrow> jsstring list \<Rightarrow> bool" where
  "matchesListTool toLowerCase tool keywords =
     (let text = buildToolText toLowerCase tool in
      if \<not> list_ex (\<lambda>keyword. includesStr text keyword) keywords then False
      else if \<not> list_ex (\<lambda>verb. includesStr text verb) LIST_VERB_KEYWORDS then False
      else if list_ex (\<lambda>verb. includesStr text verb) MUTATING_KEYWORDS then False
      else True)"

definition PROJECT_TOOL_ALIASES :: "(jsstring \<Rightarrow> jsstring) \<Rightarrow> TodoistListToolAlias list" where
  "PROJECT_TOOL_ALIASES toLowerCase =
     [\<lparr>a_names = Some [js ''todoist_projects''], a_match = None,
       a_buildArgs =
         Some (\<lambda>toolName tool.
           Some [(js ''action'', JStr (js ''list'')), (js ''include_archived'', JBool False)]),
       a_resultKeys = Some [js ''data'', js ''projects'']\<rparr>,
      \<lparr>a_names =
         Some [js ''todoist.projects.list'', js ''todoist.projects.search'',
               js ''todoist.projects.overview''],
       a_match = None, a_buildArgs = None,
       a_resultKeys = Some [js ''projects'', js ''items'', js ''data'', js ''results'']\<rparr>,
      \<lparr>a_names = None, a_match = Some (\<lambda>tool. tool_name tool = js ''find-projects''),
       a_buildArgs = None, a_resultKeys = Some [js ''projects'', js ''data'']\<rparr>,
      \<lparr>a_names = None,
       a_match = Some (\<lambda>tool. matchesListTool toLowerCase tool [js ''project'', js ''projects'']),
       a_buildArgs = None, a_resultKeys = None\<rparr>]"

definition LABEL_TOOL_ALIASES :: "(jsstring \<Rightarrow> jsstring) \<Rightarrow> TodoistListToolAlias list" where
  "LABEL_TOOL_ALIASES toLowerCase =
     [\<lparr>a_names = Some [js ''todoist_labels''], a_match = None,
       a_buildArgs =
         Some (\<lambda>toolName tool. Some [(js ''action'', JStr (js ''list'')), (js ''limit'', JNum 100)]),
       a_resultKeys = Some [js ''data'', js ''labels'']\<rparr>,
      \<lparr>a_names = Some [js ''todoist.labels.list'', js ''todoist.labels.search''],
       a_match = None, a_buildArgs = None,
       a_resultKeys = Some [js ''labels'', js ''items'', js ''data'', js ''results'']\<rparr>,
      \<lparr>a_names = None, a_match = Some (\<lambda>tool. tool_name tool = js ''find-labels''),
       a_buildArgs = None, a_resultKeys = Some [js ''labels'', js ''data'']\<rparr>,
      \<lparr>a_names = None,
       a_match =
         Some (\<lambda>tool. matchesListTool toLowerCase tool [js ''label'', js ''labels'', js ''tag'', js ''tags'']),
       a_buildArgs = None, a_resultKeys = None\<rparr>]"

fun resolveListToolConfig ::
  "Tool list \<Rightarrow> TodoistListToolAlias list \<Rightarrow> TodoistListToolConfig option" where
  "resolveListToolConfig tools [] = None"
| "resolveListToolConfig tools (alias # rest) =
     (let byName =
            (case a_names alias of
               Some ns \<Rightarrow> if ns \<noteq> [] then find (\<lambda>tool. tool_name tool \<in> set ns) tools else None
             | None \<Rightarrow> None);
          matched =
            (case byName of
               Some tool \<Rightarrow> Some tool
             | None \<Rightarrow> (case a_match alias of Some p \<Rightarrow> find p tools | None \<Rightarrow> None))
      in case matched of
           Some tool \<Rightarrow>
             Some \<lparr>c_name = tool_name tool,
                   c_args = chain (a_buildArgs alias) (\<lambda>build. build (tool_name tool) tool),
                   c_resultKeys = a_resultKeys alias\<rparr>
         | None \<Rightarrow> resolveListToolConfig tools rest)"

definition callTodoistListTool ::
  "'w Client \<Rightarrow> (jsstring \<Rightarrow> json option) \<Rightarrow> TodoistListToolConfig \<Rightarrow> ('w, json list) eff" where
  "callTodoistListTool client jsonParse config =
     tryCatch
       (bind (callTool client (c_name config) (case c_args config of None \<Rightarrow> [] | Some args \<Rightarrow> args))
          (\<lambda>response. ret (extractArrayPayload jsonParse response (c_resultKeys config))))
       (\<lambda>err. ret [])"

text \<open>
  The source casts the items of the two payloads to objects with a string \<open>id\<close> and a string
  \<open>name\<close> without a check. The catalog is modelled at its declared type: on an item that
  does not have this shape the model raises the \<open>TypeError\<close> here, where the source raises
  it at the first use of the missing string (or not at all, if it is never used).
\<close>

definition getProp :: "json \<Rightarrow> jsstring \<Rightarrow> json option" where
  "getProp v key = (case v of JObj props \<Rightarrow> map_of props key | _ \<Rightarrow> None)"

definition toProjectSummary ::
  "(jsstring \<Rightarrow> jsstring) \<Rightarrow> json \<Rightarrow> jsstring + TodoistProjectSummary" where
  "toProjectSummary toLowerCase project =
     (case (getProp project (js ''id''), getProp project (js ''name'')) of
        (Some (JStr i), Some (JStr n)) \<Rightarrow>
          Inr \<lparr>p_id = i, p_name = n,
               isInbox =
                 ((truthy (getProp project (js ''is_inbox_project'')) \<or>
                   truthy (getProp project (js ''inbox_project'')) \<or>
                   truthy (getProp project (js ''isInbox''))) \<or>
                  toLowerCase n = js ''inbox'')\<rparr>
      | _ \<Rightarrow> Inl (js ''TypeError''))"

definition toLabelSummary :: "json \<Rightarrow> jsstring + TodoistLabelSummary" where
  "toLabelSummary label =
     (case (getProp label (js ''id''), getProp label (js ''name'')) of
        (Some (JStr i), Some (JStr n)) \<Rightarrow> Inr \<lparr>l_id = i, l_name = n\<rparr>
      | _ \<Rightarrow> Inl (js ''TypeError''))"

fun mapSum :: "('a \<Rightarrow> jsstring + 'b) \<Rightarrow> 'a list \<Rightarrow> jsstring + 'b list" where
  "mapSum f [] = Inr []"
| "mapSum f (x # xs) =
     (case f x of
        Inl msg \<Rightarrow> Inl msg
      | Inr y \<Rightarrow> (case mapSum f xs of Inl msg \<Rightarrow> Inl msg | Inr ys \<Rightarrow> Inr (y # ys)))"

definition noMetadata :: TodoistMetadata where
  "noMetadata = \<lparr>md_projects = [], md_labels = []\<rparr>"

text \<open>
  \<open>fetchTodoistMetadata\<close>. The two list calls of \<open>Promise.all\<close> are taken in the order in
  which they are started.
\<close>

definition fetchTodoistMetadata ::
  "(jsstring \<Rightarrow> jsstring) \<Rightarrow> (jsstring \<Rightarrow> json option) \<Rightarrow> 'w Client option \<Rightarrow> Tool list option \<Rightarrow> ('w, TodoistMetadata) eff" where
  "fetchTodoistMetadata toLowerCase jsonParse client tools =
     (case client of
        None \<Rightarrow> ret noMetadata
      | Some c \<Rightarrow>
          (case tools of
             None \<Rightarrow> ret noMetadata
           | Some ts \<Rightarrow>
               if ts = [] then ret noMetadata
               else
                 (let projectTool = resolveListToolConfig ts (PROJECT_TOOL_ALIASES toLowerCase);
                      labelTool = resolveListToolConfig ts (LABEL_TOOL_ALIASES toLowerCase)
                  in if projectTool = None \<and> labelTool = None then ret noMetadata
                     else
                       bind (case projectTool of
                               Some config \<Rightarrow> callTodoistListTool c jsonParse config
                             | None \<Rightarrow> ret [])
                         (\<lambda>projects.
                            bind (case labelTool of
                                    Some config \<Rightarrow> callTodoistListTool c jsonParse config
                                  | None \<Rightarrow> ret [])
                              (\<lambda>labels.
                                 bind (fromSum (mapSum (toProjectSummary toLowerCase) projects))
                                   (\<lambda>projectSummaries.
                                      bind (fromSum (mapSum toLabelSummary labels))
                                        (\<lambda>labelSummaries.
                                           ret \<lparr>md_projects = projectSummaries,
                                                md_labels = labelSummaries\<rparr>)))))))"

definition inferProjectFromPrompt ::
  "(jsstring \<Rightarrow> jsstring) \<Rightarrow> jsstring \<Rightarrow> TodoistMetadata \<Rightarrow> TodoistProjectSummary option" where
  "inferProjectFromPrompt toLowerCase prompt context =
     (if md_projects context = [] then None
      else (let normalizedPrompt = toLowerCase prompt in
            find (\<lambda>project. includesStr normalizedPrompt (toLowerCase (p_name project)) \<and>
                            \<not> isInbox project)
              (md_projects context)))"

definition inferLabelsFromPrompt ::
  "(jsstring \<Rightarrow> jsstring) \<Rightarrow> jsstring \<Rightarrow> TodoistMetadata \<Rightarrow> jsstring list option" where
  "inferLabelsFromPrompt toLowerCase prompt context =
     (if md_labels context = [] then None
      else (let normalizedPrompt = toLowerCase prompt;
                matches =
                  map l_name
                    (filter (\<lambda>label. includesStr normalizedPrompt (toLowerCase (l_name label)))
                       (md_labels context))
            in if matches = [] then None else Some matches))"

subsection \<open>Intent and plan generation\<close>

text \<open>
  The candidate plan the planning model returns, after \<open>extractPlanPayload\<close>, at the shape
  \<open>aiPlanSchema\<close> checks.
\<close>

record AiPlan =
  plan_summary :: "jsstring option"
  plan_tasks :: "PlannedTask list"

record GeneratedPlan =
  gp_summary :: "jsstring option"
  gp_tasks :: "NormalizedTask list"

text \<open>
  What is outside the repository: the MCP client made for the transport; the two Workers
  AI passes, each with the decoding of its response (\<open>aiIntent\<close> is \<open>ai.run\<close> with
  \<open>extractResponsePayload\<close> and \<open>intentDecisionSchema.parse\<close>, \<open>aiPlan\<close> is \<open>ai.run\<close> with
  \<open>extractPlanPayload\<close>; they receive the arguments of the instruction text, which is not
  modelled); the URL parser (\<open>validUrl\<close>: \<open>new URL\<close> does not throw; \<open>urlHref\<close>:
  \<open>url.toString()\<close>); \<open>JSON.parse\<close> (\<open>JSON_parse\<close>); the ISO date-time check of \<open>z.string().datetime()\<close>;
  and \<open>String.prototype.toLowerCase\<close> (\<open>lowerCase\<close>).
\<close>

record 'w Externals =
  mcpClient :: "'w Client"
  aiIntent :: "PlanRequestBody \<Rightarrow> ('w, IntentDecision) eff"
  aiPlan :: "PlanRequestBody \<Rightarrow> PlanScenario \<Rightarrow> IntentDecision \<Rightarrow> TodoistMetadata \<Rightarrow> int option
               \<Rightarrow> TodoistProjectSummary option \<Rightarrow> jsstring list option \<Rightarrow> ('w, AiPlan) eff"
  validUrl :: "jsstring \<Rightarrow> bool"
  urlHref :: "jsstring \<Rightarrow> jsstring"
  JSON_parse :: "jsstring \<Rightarrow> json option"
  isDatetime :: "jsstring \<Rightarrow> bool"
  lowerCase :: "jsstring \<Rightarrow> jsstring"

definition classifyIntent :: "'w Externals \<Rightarrow> PlanRequestBody \<Rightarrow> ('w, IntentDecision) eff" where
  "classifyIntent ext input =
     tryCatch (aiIntent ext input)
       (\<lambda>err. ret \<lparr>d_intent = general_plan,
                    d_summary = Some (js ''Fallback because classification failed''),
                    d_days = None, d_keywords = None\<rparr>)"

definition isDigit :: "jschar \<Rightarrow> bool" where
  "isDigit c \<longleftrightarrow> 48 \<le> c \<and> c \<le> 57"

text \<open>\<open>/^[0-9]{4}-[0-9]{2}-[0-9]{2}$/\<close>.\<close>

definition isDateString :: "jsstring \<Rightarrow> bool" where
  "isDateString s =
     (case s of
        [y1, y2, y3, y4, h1, m1, m2, h2, d1, d2] \<Rightarrow>
          list_all isDigit [y1, y2, y3, y4, m1, m2, d1, d2] \<and> h1 = 45 \<and> h2 = 45
      | _ \<Rightarrow> False)"

definition validDue :: "(jsstring \<Rightarrow> bool) \<Rightarrow> TaskDue \<Rightarrow> bool" where
  "validDue datetimeOk d \<longleftrightarrow>
     (case due_date d of None \<Rightarrow> True | Some s \<Rightarrow> isDateString s) \<and>
     (case due_datetime d of None \<Rightarrow> True | Some s \<Rightarrow> datetimeOk s)"

definition validTask :: "(jsstring \<Rightarrow> bool) \<Rightarrow> PlannedTask \<Rightarrow> bool" where
  "validTask datetimeOk task \<longleftrightarrow>
     1 \<le> length (pt_title task) \<and>
     (case pt_priority task of None \<Rightarrow> True | Some p \<Rightarrow> 1 \<le> p \<and> p \<le> 4) \<and>
     (case pt_labels task of
        None \<Rightarrow> True
      | Some ls \<Rightarrow> length ls \<le> 5 \<and> list_all (\<lambda>l. 1 \<le> length l) ls) \<and>
     (case pt_due task of None \<Rightarrow> True | Some d \<Rightarrow> validDue datetimeOk d)"

text \<open>\<open>aiPlanSchema.parse\<close>; the text of the error it throws is not modelled.\<close>

definition aiPlanSchema_parse :: "(jsstring \<Rightarrow> bool) \<Rightarrow> AiPlan \<Rightarrow> jsstring + AiPlan" where
  "aiPlanSchema_parse datetimeOk rawPlan =
     (if list_all (validTask datetimeOk) (plan_tasks rawPlan) \<and>
         MIN_TASKS \<le> int (length (plan_tasks rawPlan))
      then Inr rawPlan else Inl (js ''ZodError''))"

text \<open>\<open>xs.slice(0, n)\<close> for an integer \<open>n\<close>: a negative \<open>n\<close> counts from the end.\<close>

definition sliceTo :: "'a list \<Rightarrow> int \<Rightarrow> 'a list" where
  "sliceTo xs n = (if n < 0 then take (nat (int (length xs) + n)) xs else take (nat n) xs)"

definition generatePlan ::
  "'w Externals \<Rightarrow> PlanRequestBody \<Rightarrow> PlanScenario \<Rightarrow> IntentDecision \<Rightarrow> TodoistMetadata
     \<Rightarrow> int option \<Rightarrow> TodoistProjectSummary option \<Rightarrow> jsstring list option
     \<Rightarrow> ('w, GeneratedPlan) eff" where
  "generatePlan ext input scenario decision context priorityHint inferredProject inferredLabels =
     bind (aiPlan ext input scenario decision context priorityHint inferredProject inferredLabels)
       (\<lambda>rawPlan.
          bind (fromSum (aiPlanSchema_parse (isDatetime ext) rawPlan))
            (\<lambda>plan.
               let normalized =
                     map (\<lambda>task. normalizeTask (lowerCase ext) task input context priorityHint
                                   inferredProject inferredLabels)
                       (sliceTo (plan_tasks plan) (maxTasks scenario))
               in if normalized = []
                  then throw (js ''The assistant did not return any tasks'')
                  else ret \<lparr>gp_summary = plan_summary plan, gp_tasks = normalized\<rparr>))"

subsection \<open>Sync with Todoist\<close>

datatype TaskStatus = pending | created | failed

record TodoistTaskResult =
  planned :: NormalizedTask
  status :: TaskStatus
  todoistId :: "json option"
  error :: "jsstring option"

datatype PriorityStyle = NumberStyle | StringStyle

definition mapApiPriorityToUiFlag :: "int \<Rightarrow> jsstring" where
  "mapApiPriorityToUiFlag p =
     (let normalized = (case clampPriority (Some p) of None \<Rightarrow> 1 | Some v \<Rightarrow> v);
          uiLevel = 5 - normalized
      in js ''p'' @ intToString uiLevel)"

text \<open>The argument object of \<open>toTodoistArgs\<close>, as the list of its properties.\<close>

definition toTodoistArgs ::
  "NormalizedTask \<Rightarrow> PlanRequestBody \<Rightarrow> PriorityStyle \<Rightarrow> (jsstring \<times> json) list" where
  "toTodoistArgs task input priorityStyle =
     [(js ''content'', JStr (title task))] @
     (if truthyStr (description task) then [(js ''description'', JStr (orEmpty (description task)))]
      else []) @
     (case priority task of
        None \<Rightarrow> []
      | Some p \<Rightarrow>
          [(js ''priority'',
            (if priorityStyle = StringStyle then JStr (mapApiPriorityToUiFlag p)
             else JNum (of_int p)))]) @
     (case labels task of None \<Rightarrow> [] | Some ls \<Rightarrow> [(js ''labels'', JArr (map JStr ls))]) @
     (if truthyStr (projectId task)
      then [(js ''projectId'', JStr (orEmpty (projectId task))),
            (js ''project_id'', JStr (orEmpty (projectId task)))]
      else []) @
     (if truthyStr (chain (due task) due_datetime)
        then [(js ''dueDatetime'', JStr (orEmpty (chain (due task) due_datetime)))]
      else if truthyStr (chain (due task) due_date)
        then [(js ''dueDate'', JStr (orEmpty (chain (due task) due_date)))]
      else if truthyStr (chain (due task) due_string)
        then [(js ''dueString'', JStr (orEmpty (chain (due task) due_string)))]
      else if truthyStr (in_due input) then [(js ''dueString'', JStr (orEmpty (in_due input)))]
      else [])"

text \<open>\<open>a ?? b\<close> on values that may be \<open>null\<close>.\<close>

definition nullish :: "json option \<Rightarrow> bool" where
  "nullish v \<longleftrightarrow> v = None \<or> v = Some JNull"

definition coalesce :: "json option \<Rightarrow> json option \<Rightarrow> json option" where
  "coalesce a b = (if nullish a then b else a)"

record ParsedResponse =
  r_id :: "json option"
  r_message :: "jsstring option"

definition parseTodoistResponse ::
  "(jsstring \<Rightarrow> json option) \<Rightarrow> CallToolResult \<Rightarrow> ParsedResponse option" where
  "parseTodoistResponse parse response =
     (case parseToolJson parse response of
        Some parsed \<Rightarrow>
          if truthy (Some parsed)
          then Some \<lparr>r_id = coalesce (coalesce (getProp parsed (js ''id''))
                                                (getProp parsed (js ''task_id'')))
                                      (getProp parsed (js ''uuid'')),
                     r_message = None\<rparr>
          else (case extractToolText response of
                  Some text \<Rightarrow> if text \<noteq> [] then Some \<lparr>r_id = None, r_message = Some text\<rparr> else None
                | None \<Rightarrow> None)
      | None \<Rightarrow>
          (case extractToolText response of
             Some text \<Rightarrow> if text \<noteq> [] then Some \<lparr>r_id = None, r_message = Some text\<rparr> else None
           | None \<Rightarrow> None))"

text \<open>
  The body of the \<open>try\<close> up to the parsed response: the call of the creation tool and the
  reading of its result. Its outcome is the outcome of the external call for the task.
\<close>

definition attemptCreate ::
  "'w Client \<Rightarrow> (jsstring \<Rightarrow> json option) \<Rightarrow> jsstring \<Rightarrow> PlanRequestBody \<Rightarrow> NormalizedTask
     \<Rightarrow> ('w, ParsedResponse option) eff" where
  "attemptCreate client parse toolName input task =
     (let isBulkTool = (toolName = js ''add-tasks'' \<or> toolName = js ''add_tasks'');
          args = toTodoistArgs task input (if isBulkTool then StringStyle else NumberStyle);
          payload = (if isBulkTool then [(js ''tasks'', JArr [JObj args])] else args)
      in bind (callTool client toolName payload)
           (\<lambda>response. ret (parseTodoistResponse parse response)))"

subsection \<open>The event stream\<close>

datatype StreamEvent =
    EvDebugTools "Tool list"
  | EvDebugError jsstring jsstring
  | EvStatus jsstring jsstring
  | EvDebugMetadata "TodoistProjectSummary list" "TodoistLabelSummary list"
  | EvDebugInference "TodoistProjectSummary option" "jsstring list option" "int option"
  | EvAiPlan "jsstring option" "NormalizedTask list" IntentType
  | EvTodoistTask TaskStatus NormalizedTask "json option" "jsstring option"
  | EvFinal nat nat "TodoistTaskResult list"
  | EvError jsstring jsstring

fun isTerminal :: "StreamEvent \<Rightarrow> bool" where
  "isTerminal (EvFinal c f results) = True"
| "isTerminal (EvError msg detail) = True"
| "isTerminal _ = False"

text \<open>
  The state of a request: the world, the events enqueued on the stream so far, and whether
  the controller has been closed. The reader of the stream stays attached: \<open>enqueue\<close> and
  \<open>close\<close> throw only on a closed controller.
\<close>

record 'w PipeState =
  world :: 'w
  queue :: "StreamEvent list"
  closed :: bool

definition lift :: "('w, 'a) eff \<Rightarrow> ('w PipeState, 'a) eff" where
  "lift call s = (case call (world s) of (r, w') \<Rightarrow> (r, s\<lparr>world := w'\<rparr>))"

definition send :: "StreamEvent \<Rightarrow> ('w PipeState, unit) eff" where
  "send event s =
     (if closed s then (Inl (js ''Invalid state: Controller is already closed''), s)
      else (Inr (), s\<lparr>queue := queue s @ [event]\<rparr>))"

definition closeController :: "('w PipeState, unit) eff" where
  "closeController s =
     (if closed s then (Inl (js ''Invalid state: Controller is already closed''), s)
      else (Inr (), s\<lparr>closed := True\<rparr>))"

definition createdResult :: "NormalizedTask \<Rightarrow> ParsedResponse option \<Rightarrow> TodoistTaskResult" where
  "createdResult task parsed =
     \<lparr>planned = task, status = created, todoistId = chain parsed r_id, error = None\<rparr>"

definition failedResult :: "NormalizedTask \<Rightarrow> jsstring \<Rightarrow> TodoistTaskResult" where
  "failedResult task msg = \<lparr>planned = task, status = failed, todoistId = None, error = Some msg\<rparr>"

text \<open>The \<open>catch\<close> block of the loop: push the failed result, then send the event.\<close>

definition recordFailure ::
  "NormalizedTask \<Rightarrow> TodoistTaskResult list \<Rightarrow> jsstring
     \<Rightarrow> ('w PipeState, TodoistTaskResult list) eff" where
  "recordFailure task results msg =
     bind (send (EvTodoistTask failed task None (Some msg)))
       (\<lambda>u. ret (results @ [failedResult task msg]))"

text \<open>
  One iteration of the loop, from the pending event to the end of the \<open>try\<close> statement. An
  exception of the \<open>try\<close> block is caught wherever it is thrown, also after the created
  result was pushed.
\<close>

definition syncStep ::
  "'w Client \<Rightarrow> (jsstring \<Rightarrow> json option) \<Rightarrow> jsstring \<Rightarrow> PlanRequestBody \<Rightarrow> NormalizedTask
     \<Rightarrow> TodoistTaskResult list \<Rightarrow> ('w PipeState, TodoistTaskResult list) eff" where
  "syncStep client parse toolName input task results =
     bind (send (EvTodoistTask pending task None None))
       (\<lambda>u s.
          case lift (attemptCreate client parse toolName input task) s of
            (Inl msg, s1) \<Rightarrow> recordFailure task results msg s1
          | (Inr parsed, s1) \<Rightarrow>
              (case send (EvTodoistTask created task (chain parsed r_id) None) s1 of
                 (Inl msg, s2) \<Rightarrow> recordFailure task (results @ [createdResult task parsed]) msg s2
               | (Inr u', s2) \<Rightarrow> (Inr (results @ [createdResult task parsed]), s2)))"

fun syncLoop ::
  "'w Client \<Rightarrow> (jsstring \<Rightarrow> json option) \<Rightarrow> jsstring \<Rightarrow> PlanRequestBody \<Rightarrow> NormalizedTask list
     \<Rightarrow> TodoistTaskResult list \<Rightarrow> ('w PipeState, TodoistTaskResult list) eff" where
  "syncLoop client parse toolName input [] results = ret results"
| "syncLoop client parse toolName input (task # rest) results =
     bind (syncStep client parse toolName input task results)
       (\<lambda>results'. syncLoop client parse toolName input rest results')"

definition ensureUrl :: "'w Externals \<Rightarrow> jsstring \<Rightarrow> jsstring + jsstring" where
  "ensureUrl ext v =
     (if validUrl ext v then Inr v else Inl (js ''TODOIST_MCP_URL must be a valid URL''))"

definition syncWithTodoist ::
  "'w Externals \<Rightarrow> 'w Client \<Rightarrow> NormalizedTask list \<Rightarrow> CloudflareEnv \<Rightarrow> PlanRequestBody
     \<Rightarrow> Tool list option \<Rightarrow> ('w PipeState, TodoistTaskResult list) eff" where
  "syncWithTodoist ext client tasks env input availableTools =
     bind (fromSum (ensureUrl ext (orEmpty (TODOIST_MCP_URL env))))
       (\<lambda>todoistUrl.
          bind (lift (resolveToolName client (urlHref ext todoistUrl) (TODOIST_TOKEN env)
                        availableTools))
            (\<lambda>toolName. syncLoop client (JSON_parse ext) toolName input tasks []))"

text \<open>
  The spec's words for the result of the loop: the outcome of each task's external call, in
  order, the world passing from one call to the next; and the result entry and the events
  of a task with a given outcome.
\<close>

fun outcomes ::
  "'w Client \<Rightarrow> (jsstring \<Rightarrow> json option) \<Rightarrow> jsstring \<Rightarrow> PlanRequestBody \<Rightarrow> NormalizedTask list
     \<Rightarrow> 'w \<Rightarrow> (jsstring + ParsedResponse option) list" where
  "outcomes client parse toolName input [] w = []"
| "outcomes client parse toolName input (task # rest) w =
     (case attemptCreate client parse toolName input task w of
        (r, w') \<Rightarrow> r # outcomes client parse toolName input rest w')"

fun worldAfter ::
  "'w Client \<Rightarrow> (jsstring \<Rightarrow> json option) \<Rightarrow> jsstring \<Rightarrow> PlanRequestBody \<Rightarrow> NormalizedTask list
     \<Rightarrow> 'w \<Rightarrow> 'w" where
  "worldAfter client parse toolName input [] w = w"
| "worldAfter client parse toolName input (task # rest) w =
     (case attemptCreate client parse toolName input task w of
        (r, w') \<Rightarrow> worldAfter client parse toolName input rest w')"

definition resultOf :: "NormalizedTask \<Rightarrow> jsstring + ParsedResponse option \<Rightarrow> TodoistTaskResult" where
  "resultOf task outcome =
     (case outcome of
        Inl msg \<Rightarrow> failedResult task msg
      | Inr parsed \<Rightarrow> createdResult task parsed)"

definition eventsOf :: "NormalizedTask \<Rightarrow> jsstring + ParsedResponse option \<Rightarrow> StreamEvent list" where
  "eventsOf task outcome =
     [EvTodoistTask pending task None None,
      (case outcome of
         Inl msg \<Rightarrow> EvTodoistTask failed task None (Some msg)
       | Inr parsed \<Rightarrow> EvTodoistTask created task (chain parsed r_id) None)]"

text \<open>The counts of the final event.\<close>

definition countStatus :: "TaskStatus \<Rightarrow> TodoistTaskResult list \<Rightarrow> nat" where
  "countStatus st results = length (filter (\<lambda>item. status item = st) results)"

subsection \<open>The streaming handler\<close>

text \<open>
  \<open>createTransport\<close>: \<open>null\<close> when the URL or the token is not configured, an exception when
  the URL is configured and invalid, otherwise the transport (its URL and token).
\<close>

definition createTransport ::
  "'w Externals \<Rightarrow> CloudflareEnv \<Rightarrow> jsstring + (jsstring \<times> jsstring) option" where
  "createTransport ext env =
     (if \<not> truthyStr (TODOIST_MCP_URL env) then Inr None
      else (case ensureUrl ext (orEmpty (TODOIST_MCP_URL env)) of
              Inl msg \<Rightarrow> Inl msg
            | Inr url \<Rightarrow>
                if \<not> truthyStr (TODOIST_TOKEN env) then Inr None
                else Inr (Some (url, orEmpty (TODOIST_TOKEN env)))))"

text \<open>\<open>client = transport ? new Client(...) : null\<close>.\<close>

definition newClient :: "'w Externals \<Rightarrow> (jsstring \<times> jsstring) option \<Rightarrow> 'w Client option" where
  "newClient ext transport = (case transport of None \<Rightarrow> None | Some t \<Rightarrow> Some (mcpClient ext))"

text \<open>
  The inner \<open>try\<close> of the handler: list the tools and send them as a debug event; an
  exception becomes a \<open>debug.error\<close> event. The result is \<open>availableTools\<close>.
\<close>

definition listAvailableTools :: "'w Client \<Rightarrow> ('w PipeState, Tool list option) eff" where
  "listAvailableTools client s =
     (case lift (listTools client) s of
        (Inl msg, s1) \<Rightarrow> bind (send (EvDebugError (js ''tools'') msg)) (\<lambda>u. ret None) s1
      | (Inr availableTools, s1) \<Rightarrow>
          (case availableTools of
             None \<Rightarrow> (Inr None, s1)
           | Some tools \<Rightarrow>
               (case send (EvDebugTools tools) s1 of
                  (Inl msg, s2) \<Rightarrow>
                    bind (send (EvDebugError (js ''tools'') msg)) (\<lambda>u. ret (Some tools)) s2
                | (Inr u, s2) \<Rightarrow> (Inr (Some tools), s2))))"

definition intentName :: "IntentType \<Rightarrow> jsstring" where
  "intentName i =
     (case i of
        single_reminder \<Rightarrow> js ''single_reminder''
      | multi_step_plan \<Rightarrow> js ''multi_step_plan''
      | recipe_plan \<Rightarrow> js ''recipe_plan''
      | general_plan \<Rightarrow> js ''general_plan'')"

definition unavailableResult :: "NormalizedTask \<Rightarrow> TodoistTaskResult" where
  "unavailableResult task =
     \<lparr>planned = task, status = failed, todoistId = None,
      error = Some (js ''Todoist MCP client is unavailable'')\<rparr>"

text \<open>The \<open>try\<close> block of the handler up to the value of \<open>todoistResults\<close>.\<close>

definition planStages ::
  "'w Externals \<Rightarrow> CloudflareEnv \<Rightarrow> PlanRequestBody \<Rightarrow> ('w PipeState, TodoistTaskResult list) eff" where
  "planStages ext env data =
     bind (fromSum (createTransport ext env))
       (\<lambda>transport.
     let client = newClient ext transport in
     bind (case client of
             None \<Rightarrow> ret None
           | Some c \<Rightarrow> bind (lift (connect c)) (\<lambda>u. listAvailableTools c))
       (\<lambda>availableTools.
     bind (send (EvStatus (js ''ai:init'') (js ''Planning tasks with Workers AI'')))
       (\<lambda>u.
     let priorityHint = detectPriorityFromPrompt (lowerCase ext) (in_prompt data) in
     bind (send (EvStatus (js ''intent:detect'') (js ''Analyzing the request intent'')))
       (\<lambda>u.
     bind (lift (classifyIntent ext data))
       (\<lambda>intentDecision.
     let scenario = determineScenario intentDecision data in
     bind (send (EvStatus (js ''intent:classified'')
                   (js ''Detected scenario: '' @ intentName (intent scenario))))
       (\<lambda>u.
     bind (lift (fetchTodoistMetadata (lowerCase ext) (JSON_parse ext) client availableTools))
       (\<lambda>todoistContext.
     bind (send (EvDebugMetadata (md_projects todoistContext) (md_labels todoistContext)))
       (\<lambda>u.
     let inferredProject = inferProjectFromPrompt (lowerCase ext) (in_prompt data) todoistContext;
         inferredLabels = inferLabelsFromPrompt (lowerCase ext) (in_prompt data) todoistContext in
     bind (lift (generatePlan ext data scenario intentDecision todoistContext priorityHint
                   inferredProject inferredLabels))
       (\<lambda>plan.
     bind (send (EvDebugInference inferredProject inferredLabels priorityHint))
       (\<lambda>u.
     bind (send (EvAiPlan (gp_summary plan) (gp_tasks plan) (intent scenario)))
       (\<lambda>u.
     (case client of
        Some c \<Rightarrow> syncWithTodoist ext c (gp_tasks plan) env data availableTools
      | None \<Rightarrow> ret (map unavailableResult (gp_tasks plan))))))))))))))"

definition POST_try :: "'w Externals \<Rightarrow> CloudflareEnv \<Rightarrow> PlanRequestBody \<Rightarrow> ('w PipeState, unit) eff" where
  "POST_try ext env data =
     bind (planStages ext env data)
       (\<lambda>todoistResults.
          bind (send (EvFinal (countStatus created todoistResults)
                        (countStatus failed todoistResults) todoistResults))
            (\<lambda>u. closeController))"

definition POST_catch :: "jsstring \<Rightarrow> ('w PipeState, unit) eff" where
  "POST_catch detail =
     bind (send (EvError (js ''Failed to generate the plan'') detail)) (\<lambda>u. closeController)"

definition closeClient :: "'w Client option \<Rightarrow> ('w, unit) eff" where
  "closeClient client =
     (case client of
        None \<Rightarrow> ret ()
      | Some c \<Rightarrow> tryCatch (closeConnection c) (\<lambda>err. ret ()))"

text \<open>The value of the variable \<open>client\<close> when the \<open>finally\<close> block runs.\<close>

definition clientAtEnd :: "'w Externals \<Rightarrow> CloudflareEnv \<Rightarrow> 'w Client option" where
  "clientAtEnd ext env =
     (case createTransport ext env of Inl msg \<Rightarrow> None | Inr transport \<Rightarrow> newClient ext transport)"

text \<open>\<open>try { ... } catch (error) { ... } finally { await closeClient(client) }\<close>.\<close>

definition POST_body :: "'w Externals \<Rightarrow> CloudflareEnv \<Rightarrow> PlanRequestBody \<Rightarrow> ('w PipeState, unit) eff" where
  "POST_body ext env data s =
     (case tryCatch (POST_try ext env data) POST_catch s of
        (r, s1) \<Rightarrow>
          (case lift (closeClient (clientAtEnd ext env)) s1 of
             (Inl msg, s2) \<Rightarrow> (Inl msg, s2)
           | (Inr u, s2) \<Rightarrow> (r, s2)))"

text \<open>
  The stream of a valid request: the asynchronous body runs from an empty queue; should it
  reject, the handler of \<open>.catch\<close> closes the controller.
\<close>

definition POST_stream :: "'w Externals \<Rightarrow> CloudflareEnv \<Rightarrow> PlanRequestBody \<Rightarrow> 'w \<Rightarrow> 'w PipeState" where
  "POST_stream ext env data w =
     (case POST_body ext env data \<lparr>world = w, queue = [], closed = False\<rparr> of
        (Inl msg, s) \<Rightarrow> snd (closeController s)
      | (Inr u, s) \<Rightarrow> s)"

definition syncResults ::
  "'w Client \<Rightarrow> (jsstring \<Rightarrow> json option) \<Rightarrow> jsstring \<Rightarrow> PlanRequestBody \<Rightarrow> NormalizedTask list
     \<Rightarrow> 'w \<Rightarrow> TodoistTaskResult list" where
  "syncResults client parse toolName input tasks w =
     map2 resultOf tasks (outcomes client parse toolName input tasks w)"

definition syncEvents ::
  "'w Client \<Rightarrow> (jsstring \<Rightarrow> json option) \<Rightarrow> jsstring \<Rightarrow> PlanRequestBody \<Rightarrow> NormalizedTask list
     \<Rightarrow> 'w \<Rightarrow> StreamEvent list" where
  "syncEvents client parse toolName input tasks w =
     concat (map2 eventsOf tasks (outcomes client parse toolName input tasks w))"

subsection \<open>Terminal events\<close>

fun isFinalEvent :: "StreamEvent \<Rightarrow> bool" where
  "isFinalEvent (EvFinal c f results) = True"
| "isFinalEvent _ = False"

fun isErrorEvent :: "StreamEvent \<Rightarrow> bool" where
  "isErrorEvent (EvError msg detail) = True"
| "isErrorEvent _ = False"

text \<open>
  A stage is quiet when, run on an open stream, it leaves the stream open and adds only
  events that are not terminal, whether it returns or throws.
\<close>

definition quiet :: "('w PipeState, 'a) eff \<Rightarrow> bool" where
  "quiet m \<longleftrightarrow>
     (\<forall>s r s'. \<not> closed s \<and> m s = (r, s') \<longrightarrow>
        \<not> closed s' \<and> (\<exists>es. queue s' = queue s @ es \<and> list_all (\<lambda>e. \<not> isTerminal e) es))"

section \<open>Properties\<close>

subsection \<open>Priority cues\<close>


lemma digit_not_space: "isDigit04 d \<Longrightarrow> \<not> isWhiteSpace d"
  by (auto simp: isDigit04_def isWhiteSpace_def)

lemma cueTail_iff:
  "cueTail s = Some d \<longleftrightarrow> (\<exists>ws post. s = ws @ d # post \<and> list_all isWhiteSpace ws \<and> isDigit04 d)"
proof
  assume h: "cueTail s = Some d"
  then obtain r where dw: "dropWhile isWhiteSpace s = d # r" and dg: "isDigit04 d"
    by (auto simp: cueTail_def split: list.splits if_splits)
  have "s = takeWhile isWhiteSpace s @ d # r"
    using dw takeWhile_dropWhile_id [of isWhiteSpace s] by simp
  moreover have "list_all isWhiteSpace (takeWhile isWhiteSpace s)"
    by (auto simp: list_all_iff dest: set_takeWhileD)
  ultimately show "\<exists>ws post. s = ws @ d # post \<and> list_all isWhiteSpace ws \<and> isDigit04 d"
    using dg by blast
next
  assume "\<exists>ws post. s = ws @ d # post \<and> list_all isWhiteSpace ws \<and> isDigit04 d"
  then obtain ws post where s: "s = ws @ d # post" and ws: "list_all isWhiteSpace ws" and dg: "isDigit04 d"
    by blast
  have "dropWhile isWhiteSpace s = d # post"
    using s ws digit_not_space [OF dg] by (simp add: dropWhile_append2 list_all_iff)
  then show "cueTail s = Some d"
    using dg by (simp add: cueTail_def)
qed

lemma cueTail_digit: "cueTail s = Some d \<Longrightarrow> isDigit04 d"
  by (auto simp: cueTail_def split: list.splits if_splits)

lemma matchAtLit_iff:
  "matchAtLit lit s = Some d \<longleftrightarrow>
     (\<exists>ws post. s = lit @ ws @ d # post \<and> list_all isWhiteSpace ws \<and> isDigit04 d)"
proof
  assume h: "matchAtLit lit s = Some d"
  then have t: "take (length lit) s = lit" and c: "cueTail (drop (length lit) s) = Some d"
    by (auto simp: matchAtLit_def split: if_splits)
  from c obtain ws post where "drop (length lit) s = ws @ d # post" "list_all isWhiteSpace ws" "isDigit04 d"
    unfolding cueTail_iff by blast
  moreover have "s = lit @ drop (length lit) s"
    using t append_take_drop_id [of "length lit" s] by simp
  ultimately have "s = lit @ ws @ d # post \<and> list_all isWhiteSpace ws \<and> isDigit04 d"
    by simp
  then show "\<exists>ws post. s = lit @ ws @ d # post \<and> list_all isWhiteSpace ws \<and> isDigit04 d"
    by blast
next
  assume "\<exists>ws post. s = lit @ ws @ d # post \<and> list_all isWhiteSpace ws \<and> isDigit04 d"
  then obtain ws post where s: "s = lit @ ws @ d # post" and r: "list_all isWhiteSpace ws" "isDigit04 d"
    by blast
  have "cueTail (ws @ d # post) = Some d"
    unfolding cueTail_iff using r by blast
  then show "matchAtLit lit s = Some d"
    using s by (simp add: matchAtLit_def)
qed

lemma execLit_sound: "execLit lit s = Some d \<Longrightarrow> cueAt False lit s d"
proof (induction s)
  case Nil
  then have "matchAtLit lit [] = Some d" by simp
  then obtain ws post where "[] = lit @ ws @ d # post" unfolding matchAtLit_iff by blast
  then show ?case by simp
next
  case (Cons c cs)
  show ?case
  proof (cases "matchAtLit lit (c # cs)")
    case (Some e)
    with Cons.prems have "matchAtLit lit (c # cs) = Some d" by simp
    then obtain ws post where "c # cs = lit @ ws @ d # post" "list_all isWhiteSpace ws" "isDigit04 d"
      unfolding matchAtLit_iff by blast
    then have "c # cs = [] @ lit @ ws @ d # post \<and> list_all isWhiteSpace ws \<and> isDigit04 d" by simp
    then show ?thesis unfolding cueAt_def by blast
  next
    case None
    with Cons.prems have "execLit lit cs = Some d" by simp
    then have "cueAt False lit cs d" by (rule Cons.IH)
    then obtain pre ws post where "cs = pre @ lit @ ws @ d # post" "list_all isWhiteSpace ws" "isDigit04 d"
      unfolding cueAt_def by blast
    then have "c # cs = (c # pre) @ lit @ ws @ d # post \<and> list_all isWhiteSpace ws \<and> isDigit04 d" by simp
    then show ?thesis unfolding cueAt_def by blast
  qed
qed

lemma execLit_complete: "cueAt False lit s d \<Longrightarrow> \<exists>e. execLit lit s = Some e"
proof -
  assume "cueAt False lit s d"
  then obtain pre ws post where s: "s = pre @ lit @ ws @ d # post" and r: "list_all isWhiteSpace ws" "isDigit04 d"
    unfolding cueAt_def by blast
  have m: "matchAtLit lit (lit @ ws @ d # post) = Some d"
    unfolding matchAtLit_iff using r by blast
  have "\<exists>e. execLit lit (pre @ lit @ ws @ d # post) = Some e"
  proof (induction pre)
    case Nil
    show ?case using m by (cases "lit @ ws @ d # post") auto
  next
    case (Cons c pre)
    then show ?case by (auto split: option.splits)
  qed
  then show ?thesis using s by simp
qed

lemma execLit_digit: "execLit lit s = Some d \<Longrightarrow> isDigit04 d"
  using execLit_sound [of lit s d] by (auto simp: cueAt_def)


lemma matchAtP_cases:
  "matchAtP b s = Some d \<longleftrightarrow>
     (b \<and> (\<exists>r. s = 112 # r \<and> cueTail r = Some d)) \<or>
     (\<not> (b \<and> (\<exists>r e. s = 112 # r \<and> cueTail r = Some e)) \<and>
      (\<exists>c r. s = c # 112 # r \<and> \<not> isLowerAlnum c \<and> cueTail r = Some d))"
  by (cases s; cases "tl s"; cases b) (auto simp: matchAtP_def split: option.splits)

lemma execP_sound:
  "execP b s = Some d \<Longrightarrow>
     \<exists>pre ws post. s = pre @ 112 # ws @ d # post \<and>
       (if b then pre = [] \<or> \<not> isLowerAlnum (last pre) else pre \<noteq> [] \<and> \<not> isLowerAlnum (last pre)) \<and>
       list_all isWhiteSpace ws \<and> isDigit04 d"
proof (induction s arbitrary: b)
  case Nil
  then show ?case by simp
next
  case (Cons c cs)
  show ?case
  proof (cases "matchAtP b (c # cs)")
    case (Some e)
    with Cons.prems have m: "matchAtP b (c # cs) = Some d" by simp
    then consider (start) r where "b" "c # cs = 112 # r" "cueTail r = Some d"
      | (guard) c0 r where "c # cs = c0 # 112 # r" "\<not> isLowerAlnum c0" "cueTail r = Some d"
      unfolding matchAtP_cases by blast
    then show ?thesis
    proof cases
      case start
      from start(3) obtain ws post where "r = ws @ d # post" "list_all isWhiteSpace ws" "isDigit04 d"
        unfolding cueTail_iff by blast
      with start(1,2) have "c # cs = [] @ 112 # ws @ d # post \<and>
          (if b then [] = [] \<or> \<not> isLowerAlnum (last []) else [] \<noteq> [] \<and> \<not> isLowerAlnum (last [])) \<and>
          list_all isWhiteSpace ws \<and> isDigit04 d"
        by simp
      then show ?thesis by blast
    next
      case guard
      from guard(3) obtain ws post where "r = ws @ d # post" "list_all isWhiteSpace ws" "isDigit04 d"
        unfolding cueTail_iff by blast
      with guard(1,2) have "c # cs = [c0] @ 112 # ws @ d # post \<and>
          (if b then [c0] = [] \<or> \<not> isLowerAlnum (last [c0]) else [c0] \<noteq> [] \<and> \<not> isLowerAlnum (last [c0])) \<and>
          list_all isWhiteSpace ws \<and> isDigit04 d"
        by simp
      then show ?thesis by blast
    qed
  next
    case None
    with Cons.prems have "execP False cs = Some d" by simp
    from Cons.IH [OF this] obtain pre ws post where
      h: "cs = pre @ 112 # ws @ d # post" "pre \<noteq> []" "\<not> isLowerAlnum (last pre)"
         "list_all isWhiteSpace ws" "isDigit04 d"
      by auto
    then have "c # cs = (c # pre) @ 112 # ws @ d # post \<and>
          (if b then c # pre = [] \<or> \<not> isLowerAlnum (last (c # pre))
           else c # pre \<noteq> [] \<and> \<not> isLowerAlnum (last (c # pre))) \<and>
          list_all isWhiteSpace ws \<and> isDigit04 d"
      by simp
    then show ?thesis by blast
  qed
qed

lemma execP_complete:
  assumes "list_all isWhiteSpace ws" "isDigit04 d"
  shows "(if b then pre = [] \<or> \<not> isLowerAlnum (last pre) else pre \<noteq> [] \<and> \<not> isLowerAlnum (last pre))
     \<Longrightarrow> \<exists>e. execP b (pre @ 112 # ws @ d # post) = Some e"
proof (induction pre arbitrary: b)
  case Nil
  then have b: "b" by (simp split: if_splits)
  have "cueTail (ws @ d # post) = Some d"
    unfolding cueTail_iff using assms by blast
  then have "matchAtP True (112 # ws @ d # post) = Some d"
    unfolding matchAtP_cases by simp
  then show ?case using b by simp
next
  case (Cons c pre)
  show ?case
  proof (cases "matchAtP b ((c # pre) @ 112 # ws @ d # post)")
    case (Some e)
    then show ?thesis by simp
  next
    case None
    have t: "cueTail (ws @ d # post) = Some d"
      unfolding cueTail_iff using assms by blast
    have ne: "pre \<noteq> []"
    proof
      assume e: "pre = []"
      with Cons.prems have "\<not> isLowerAlnum c" by (simp split: if_splits)
      with t e have "\<exists>e. matchAtP b ((c # pre) @ 112 # ws @ d # post) = Some e"
        by (auto simp: matchAtP_def split: option.splits)
      with None show False by simp
    qed
    with Cons.prems have "\<not> isLowerAlnum (last pre)" by (simp split: if_splits)
    with ne have "\<exists>e. execP False (pre @ 112 # ws @ d # post) = Some e"
      using Cons.IH [of False] by simp
    with None show ?thesis by simp
  qed
qed

lemma execP_digit: "execP b s = Some d \<Longrightarrow> isDigit04 d"
  using execP_sound [of b s d] by blast

lemma execP_cue: "(\<exists>e. execP True s = Some e) \<longleftrightarrow> (\<exists>d. cueAt True (js ''p'') s d)"
proof
  assume "\<exists>e. execP True s = Some e"
  then obtain e where "execP True s = Some e" by blast
  from execP_sound [OF this] show "\<exists>d. cueAt True (js ''p'') s d"
    unfolding cueAt_def by (auto simp: js_def)
next
  assume "\<exists>d. cueAt True (js ''p'') s d"
  then obtain d pre ws post where h: "s = pre @ 112 # ws @ d # post" "pre = [] \<or> \<not> isLowerAlnum (last pre)"
      "list_all isWhiteSpace ws" "isDigit04 d"
    unfolding cueAt_def by (auto simp: js_def)
  from execP_complete [OF h(3,4), of True pre post] h(1,2) show "\<exists>e. execP True s = Some e"
    by simp
qed

lemma execLit_cue: "(\<exists>e. execLit lit s = Some e) \<longleftrightarrow> (\<exists>d. cueAt False lit s d)"
  using execLit_sound execLit_complete by blast

lemma firstCue_None: "firstCue n = None \<longleftrightarrow> \<not> hasCue n"
proof -
  have "firstCue n = None \<longleftrightarrow>
      \<not> (\<exists>e. execP True n = Some e) \<and> \<not> (\<exists>e. execLit (js ''priority'') n = Some e) \<and>
      \<not> (\<exists>e. execLit localizedPriorityWord n = Some e)"
    by (auto simp: firstCue_def split: option.splits)
  then show ?thesis
    unfolding execP_cue execLit_cue hasCue_def by blast
qed

lemma firstCue_digit: "firstCue n = Some d \<Longrightarrow> isDigit04 d"
  by (auto simp: firstCue_def split: option.splits dest: execP_digit execLit_digit)

lemma mapPriorityCueToApi_digit:
  "isDigit04 d \<Longrightarrow> mapPriorityCueToApi [d] =
     (if d = 48 \<or> d = 49 then Some 4 else if d = 50 then Some 3 else if d = 51 then Some 2 else Some 1)"
  by (auto simp: mapPriorityCueToApi_def js_def isDigit04_def)

lemma detectLoop_patterns:
  "detectLoop patterns n = (case firstCue n of None \<Rightarrow> None | Some d \<Rightarrow> mapPriorityCueToApi [d])"
proof -
  have m: "\<And>d. isDigit04 d \<Longrightarrow> \<exists>p. mapPriorityCueToApi [d] = Some p \<and> p \<noteq> 0"
    by (simp add: mapPriorityCueToApi_digit)
  show ?thesis
  proof (cases "execP True n")
    case (Some d)
    with m [OF execP_digit [OF Some]] show ?thesis
      by (auto simp: patterns_def firstCue_def)
  next
    case n1: None
    show ?thesis
    proof (cases "execLit (js ''priority'') n")
      case (Some d)
      with n1 m [OF execLit_digit [OF Some]] show ?thesis
        by (auto simp: patterns_def firstCue_def)
    next
      case n2: None
      show ?thesis
      proof (cases "execLit localizedPriorityWord n")
        case (Some d)
        with n1 n2 m [OF execLit_digit [OF Some]] show ?thesis
          by (auto simp: patterns_def firstCue_def)
      next
        case None
        with n1 n2 show ?thesis by (simp add: patterns_def firstCue_def)
      qed
    qed
  qed
qed

lemmas c1_eval = detectPriorityFromPrompt_def patterns_def asciiLower_def lowerUnit_def js_def
  matchAtP_def matchAtLit_def cueTail_def isDigit04_def isWhiteSpace_def isLowerAlnum_def
  mapPriorityCueToApi_def localizedPriorityWord_def

text \<open>
  C1, as amended. For every prompt, and whatever function \<open>toLowerCase\<close> is,
  \<open>detectPriorityFromPrompt\<close> returns the priority of the digit captured by the first
  pattern that matches the lower-cased prompt: 0 or 1 gives 4, 2 gives 3, 3 gives 2 and 4
  gives 1; it returns \<open>undefined\<close> exactly when the lower-cased prompt holds no cue (no
  \<open>p\<close>, \<open>priority\<close> or localized marker followed by a digit from 0 to 4).
\<close>

theorem detectPriorityFromPrompt_table:
  "detectPriorityFromPrompt toLowerCase prompt =
     (case firstCue (toLowerCase prompt) of
        None \<Rightarrow> None
      | Some d \<Rightarrow>
          if d = 48 \<or> d = 49 then Some 4
          else if d = 50 then Some 3
          else if d = 51 then Some 2
          else if d = 52 then Some 1
          else None) \<and>
   (detectPriorityFromPrompt toLowerCase prompt = None) = (\<not> hasCue (toLowerCase prompt))"
proof -
  have a: "detectPriorityFromPrompt toLowerCase prompt =
      (case firstCue (toLowerCase prompt) of None \<Rightarrow> None | Some d \<Rightarrow> mapPriorityCueToApi [d])"
    by (simp add: detectPriorityFromPrompt_def detectLoop_patterns)
  show ?thesis
  proof (cases "firstCue (toLowerCase prompt)")
    case None
    with a firstCue_None [of "toLowerCase prompt"] show ?thesis by simp
  next
    case (Some d)
    then have dg: "isDigit04 d" by (rule firstCue_digit)
    have "hasCue (toLowerCase prompt)"
      using Some firstCue_None [of "toLowerCase prompt"] by auto
    with a Some dg show ?thesis
      by (auto simp: mapPriorityCueToApi_digit isDigit04_def)
  qed
qed

theorem detectPriorityFromPrompt_table_witness:
  "detectPriorityFromPrompt asciiLower (js ''Call mom P1 today'') = Some 4 \<and>
   hasCue (asciiLower (js ''Call mom P1 today''))"
  using detectPriorityFromPrompt_table [of asciiLower "js ''Call mom P1 today''"]
  by (simp add: c1_eval firstCue_def)

text \<open>
  C1 as stated fails: a \<open>P4\<close> cue is a cue other than P0 to P3, and the result is the
  priority 1, not \<open>undefined\<close>. The prompt is ASCII text, which \<open>toLowerCase\<close> lowers to
  \<open>p4\<close>.
\<close>

theorem detectPriorityFromPrompt_P4_counterexample:
  "detectPriorityFromPrompt asciiLower (js ''P4'') = Some 1 \<and>
   detectPriorityFromPrompt asciiLower (js ''P4'') \<noteq> None"
  by (simp add: c1_eval)

subsection \<open>Scenario selection\<close>

lemma clampMax_spec: "clampMax v = clampSpec 1 10 v"
  by (simp add: clampMax_def clampSpec_def MIN_TASKS_def MAX_TASKS_def)

lemma clampMax_range: "1 \<le> clampMax v \<and> clampMax v \<le> 10"
  by (simp add: clampMax_def MIN_TASKS_def MAX_TASKS_def)

lemma determineScenario_maxTasks_range:
  "1 \<le> maxTasks (determineScenario decision input) \<and> maxTasks (determineScenario decision input) \<le> 10"
  using clampMax_range
  by (cases "d_intent decision") (simp_all add: determineScenario_def Let_def)

text \<open>
  C6. Scenario selection is the function of the intent decision and the request that the
  spec's table gives: \<open>single_reminder\<close> has \<open>maxTasks = 1\<close> and temperature 0.1;
  \<open>recipe_plan\<close> has \<open>maxTasks = clamp(days * 2, 1..10)\<close>, where \<open>days\<close> is the decision's
  \<open>days\<close> (3 when absent) clamped to 1..5, and temperature 0.35; \<open>multi_step_plan\<close> has
  \<open>maxTasks = clamp(max(2, request.maxTasks), 1..10)\<close> and temperature 0.25; \<open>general_plan\<close>
  has \<open>maxTasks = clamp(request.maxTasks, 1..10)\<close> and temperature 0.2.
\<close>

theorem determineScenario_table:
  "intent (determineScenario decision input) = d_intent decision \<and>
   maxTasks (determineScenario decision input) =
     (case d_intent decision of
        single_reminder \<Rightarrow> 1
      | recipe_plan \<Rightarrow>
          clampSpec 1 10 (clampSpec 1 5 (case d_days decision of None \<Rightarrow> 3 | Some n \<Rightarrow> n) * 2)
      | multi_step_plan \<Rightarrow> clampSpec 1 10 (max 2 (in_maxTasks input))
      | general_plan \<Rightarrow> clampSpec 1 10 (in_maxTasks input)) \<and>
   temperature (determineScenario decision input) =
     (case d_intent decision of
        single_reminder \<Rightarrow> 0.1
      | recipe_plan \<Rightarrow> 0.35
      | multi_step_plan \<Rightarrow> 0.25
      | general_plan \<Rightarrow> 0.2)"
proof (cases "d_intent decision")
  case single_reminder
  then show ?thesis by (simp add: determineScenario_def)
next
  case multi_step_plan
  then show ?thesis by (simp add: determineScenario_def clampMax_spec)
next
  case recipe_plan
  have "min (max x 1) 5 = clampSpec 1 5 x" for x :: int
    by (simp add: clampSpec_def)
  with recipe_plan show ?thesis
    by (simp add: determineScenario_def clampMax_spec Let_def)
next
  case general_plan
  then show ?thesis by (simp add: determineScenario_def clampMax_spec)
qed

subsection \<open>Due selection\<close>

text \<open>
  C5. Due normalization keeps exactly one representation, chosen by the precedence task
  \<open>datetime\<close> over task \<open>date\<close> over task \<open>string\<close> over the request-level due hint, and it
  returns \<open>undefined\<close> only when none of the four is present. A value is present when it is
  truthy, as the source tests it: defined and not the empty string.
\<close>

theorem selectDue_precedence:
  "selectDue fromTask fallback =
     (if truthyStr (chain fromTask due_datetime)
        then Some \<lparr>due_string = None, due_date = None, due_datetime = chain fromTask due_datetime\<rparr>
      else if truthyStr (chain fromTask due_date)
        then Some \<lparr>due_string = None, due_date = chain fromTask due_date, due_datetime = None\<rparr>
      else if truthyStr (chain fromTask due_string)
        then Some \<lparr>due_string = chain fromTask due_string, due_date = None, due_datetime = None\<rparr>
      else if truthyStr fallback
        then Some \<lparr>due_string = fallback, due_date = None, due_datetime = None\<rparr>
      else None) \<and>
   (\<forall>d. selectDue fromTask fallback = Some d \<longrightarrow> representations d = 1) \<and>
   (selectDue fromTask fallback = None) =
     (\<not> truthyStr (chain fromTask due_datetime) \<and> \<not> truthyStr (chain fromTask due_date) \<and>
      \<not> truthyStr (chain fromTask due_string) \<and> \<not> truthyStr fallback)"
proof -
  have none: "chain None f = None" for f :: "TaskDue \<Rightarrow> jsstring option"
    by (simp add: chain_def)
  have t: "\<not> truthyStr None" by (simp add: truthyStr_def)
  have a: "selectDue fromTask fallback =
     (if truthyStr (chain fromTask due_datetime)
        then Some \<lparr>due_string = None, due_date = None, due_datetime = chain fromTask due_datetime\<rparr>
      else if truthyStr (chain fromTask due_date)
        then Some \<lparr>due_string = None, due_date = chain fromTask due_date, due_datetime = None\<rparr>
      else if truthyStr (chain fromTask due_string)
        then Some \<lparr>due_string = chain fromTask due_string, due_date = None, due_datetime = None\<rparr>
      else if truthyStr fallback
        then Some \<lparr>due_string = fallback, due_date = None, due_datetime = None\<rparr>
      else None)"
    by (cases fromTask) (simp_all add: selectDue_def emptyDue_def none t)
  have b: "representations d = 1" if "selectDue fromTask fallback = Some d" for d
    using that unfolding a by (auto simp: representations_def t split: if_splits)
  have c: "(selectDue fromTask fallback = None) =
     (\<not> truthyStr (chain fromTask due_datetime) \<and> \<not> truthyStr (chain fromTask due_date) \<and>
      \<not> truthyStr (chain fromTask due_string) \<and> \<not> truthyStr fallback)"
    unfolding a by simp
  from a b c show ?thesis by blast
qed

theorem selectDue_precedence_witness:
  "selectDue (Some \<lparr>due_string = Some (js ''tomorrow''), due_date = Some (js ''2025-01-02''),
                   due_datetime = Some (js ''2025-01-02T09:00:00Z'')\<rparr>) (Some (js ''friday''))
     = Some \<lparr>due_string = None, due_date = None, due_datetime = Some (js ''2025-01-02T09:00:00Z'')\<rparr> \<and>
   representations \<lparr>due_string = None, due_date = None,
                    due_datetime = Some (js ''2025-01-02T09:00:00Z'')\<rparr> = 1"
  using selectDue_precedence [of "Some \<lparr>due_string = Some (js ''tomorrow''),
      due_date = Some (js ''2025-01-02''), due_datetime = Some (js ''2025-01-02T09:00:00Z'')\<rparr>"
      "Some (js ''friday'')"]
  by (simp add: chain_def truthyStr_def js_def)

subsection \<open>Label normalization\<close>

lemma trimmed_trim: "trimmed s \<Longrightarrow> trim s = s"
proof (cases "s = []")
  case True
  then show ?thesis by (simp add: trim_def)
next
  case False
  assume "trimmed s"
  with False have h: "\<not> isWhiteSpace (hd s)" and l: "\<not> isWhiteSpace (last s)"
    by (auto simp: trimmed_def)
  from False h have a: "dropWhile isWhiteSpace s = s"
    by (cases s) auto
  from False l have b: "dropWhile isWhiteSpace (rev s) = rev s"
    by (cases "rev s") (auto simp: last_rev [symmetric] hd_rev)
  show ?thesis by (simp add: trim_def a b)
qed

lemma dropWhile_hd: "dropWhile P xs \<noteq> [] \<Longrightarrow> \<not> P (hd (dropWhile P xs))"
  using hd_dropWhile by blast

lemma trim_trimmed: "trimmed (trim s)"
proof (cases "trim s = []")
  case True
  then show ?thesis by (simp add: trimmed_def)
next
  case False
  define a where "a = dropWhile isWhiteSpace s"
  define b where "b = dropWhile isWhiteSpace (rev a)"
  have t: "trim s = rev b" by (simp add: trim_def a_def b_def)
  with False have bne: "b \<noteq> []" by simp
  then have hb: "\<not> isWhiteSpace (hd b)" unfolding b_def by (rule dropWhile_hd)
  have ane: "a \<noteq> []"
  proof
    assume "a = []"
    then have "b = []" by (simp add: b_def)
    with bne show False by blast
  qed
  then have ha: "\<not> isWhiteSpace (hd a)" unfolding a_def by (rule dropWhile_hd)
  have "rev a = takeWhile isWhiteSpace (rev a) @ b"
    unfolding b_def by simp
  then have "rev (rev a) = rev (takeWhile isWhiteSpace (rev a) @ b)" by (rule arg_cong)
  then have "a = rev b @ rev (takeWhile isWhiteSpace (rev a))" by simp
  then have "hd a = hd (rev b @ rev (takeWhile isWhiteSpace (rev a)))" by (rule arg_cong)
  with bne have "hd a = hd (rev b)" by simp
  with ha have h: "\<not> isWhiteSpace (hd (trim s))" by (simp add: t)
  from hb bne have l: "\<not> isWhiteSpace (last (trim s))" by (simp add: t last_rev)
  from h l show ?thesis by (simp add: trimmed_def)
qed

lemma trim_idem: "trim (trim s) = trim s"
  by (rule trimmed_trim [OF trim_trimmed])

lemma lowerUnit_space: "isWhiteSpace (lowerUnit c) = isWhiteSpace c"
  by (auto simp: lowerUnit_def isWhiteSpace_def)

lemma asciiLower_trimmed:
  assumes "asciiLower a = asciiLower b" "trimmed b"
  shows "trimmed a"
proof (cases "a = []")
  case True
  then show ?thesis by (simp add: trimmed_def)
next
  case False
  with assms(1) have bne: "b \<noteq> []" by (auto simp: asciiLower_def)
  from assms(1) False bne have "lowerUnit (hd a) = lowerUnit (hd b)"
    by (cases a; cases b) (auto simp: asciiLower_def)
  moreover from assms(1) False bne have "lowerUnit (last a) = lowerUnit (last b)"
    unfolding asciiLower_def by (metis last_map)
  moreover from assms(2) bne have "\<not> isWhiteSpace (hd b)" "\<not> isWhiteSpace (last b)"
    by (auto simp: trimmed_def)
  ultimately have "\<not> isWhiteSpace (hd a)" "\<not> isWhiteSpace (last a)"
    by (metis lowerUnit_space)+
  then show ?thesis by (simp add: trimmed_def)
qed

lemma asciiLower_keeps_trim:
  "b \<noteq> [] \<and> trim b = b \<and> asciiLower a = asciiLower b \<longrightarrow> trim a = a"
proof (intro impI, elim conjE)
  assume b: "trim b = b" and e: "asciiLower a = asciiLower b"
  have "trimmed (trim b)" by (rule trim_trimmed)
  with b have "trimmed b" by simp
  with e have "trimmed a" by (rule asciiLower_trimmed)
  then show "trim a = a" by (rule trimmed_trim)
qed

lemma keepTruthy_nonempty: "x \<in> set (keepTruthy ys) \<Longrightarrow> x \<noteq> [] \<and> Some x \<in> set ys"
  by (induction ys rule: keepTruthy.induct) (auto split: if_splits)

lemma keepTruthy_Some: "[] \<notin> set xs \<Longrightarrow> keepTruthy (map Some xs) = xs"
  by (induction xs) auto

lemma canonicalLabel_fixed:
  assumes ks: "\<And>a b. b \<noteq> [] \<Longrightarrow> trim b = b \<Longrightarrow> toLowerCase a = toLowerCase b \<Longrightarrow> trim a = a"
    and c: "canonicalLabel toLowerCase context x = Some m"
    and mne: "m \<noteq> []"
  shows "canonicalLabel toLowerCase context m = Some m \<and> trim m = m"
proof -
  let ?t = "trim x"
  from c have tne: "?t \<noteq> []"
    by (auto simp: canonicalLabel_def Let_def split: if_splits)
  have tt: "trim ?t = ?t" by (rule trim_idem)
  show ?thesis
  proof (cases "find (\<lambda>entry. toLowerCase (l_name entry) = toLowerCase ?t) (md_labels context)")
    case None
    with c tne have m: "m = ?t" by (simp add: canonicalLabel_def Let_def)
    with None tne show ?thesis by (simp add: canonicalLabel_def Let_def trim_idem)
  next
    case (Some e)
    with c tne have m: "m = l_name e" by (simp add: canonicalLabel_def Let_def)
    from Some have lo: "toLowerCase (l_name e) = toLowerCase ?t"
      by (auto simp: find_Some_iff)
    have tm: "trim m = m" unfolding m using tne tt lo by (rule ks)
    from Some lo m tm mne show ?thesis by (simp add: canonicalLabel_def Let_def)
  qed
qed

lemma dedupeLoop_spec:
  "length result < 5 \<Longrightarrow>
   dedupeLoop toLowerCase xs seen result =
     take 5 (result @ firstSeenFrom toLowerCase seen (filter (\<lambda>s. s \<noteq> []) (map trim xs)))"
proof (induction xs arbitrary: seen result)
  case Nil
  then show ?case by simp
next
  case (Cons x xs)
  show ?case
  proof (cases "trim x = [] \<or> toLowerCase (trim x) \<in> seen")
    case True
    with Cons show ?thesis by (auto simp: Let_def)
  next
    case False
    show ?thesis
    proof (cases "length result = 4")
      case True
      with False show ?thesis by (simp add: Let_def)
    next
      case f: False
      with Cons.prems have "length (result @ [trim x]) < 5" by simp
      from Cons.IH [OF this] False f show ?thesis by (simp add: Let_def)
    qed
  qed
qed

lemma firstSeenFrom_distinct:
  "distinct (map toLowerCase (firstSeenFrom toLowerCase seen xs)) \<and>
   toLowerCase ` set (firstSeenFrom toLowerCase seen xs) \<inter> seen = {} \<and>
   set (firstSeenFrom toLowerCase seen xs) \<subseteq> set xs"
proof (induction xs arbitrary: seen)
  case Nil
  then show ?case by simp
next
  case (Cons x xs)
  show ?case
  proof (cases "toLowerCase x \<in> seen")
    case True
    with Cons [of seen] show ?thesis by auto
  next
    case False
    with Cons [of "insert (toLowerCase x) seen"] show ?thesis by auto
  qed
qed

lemma firstSeenFrom_id:
  "distinct (map toLowerCase xs) \<Longrightarrow> toLowerCase ` set xs \<inter> seen = {} \<Longrightarrow> firstSeenFrom toLowerCase seen xs = xs"
  by (induction xs arbitrary: seen) auto

lemma firstSeenFrom_first:
  "x \<in> set (firstSeenFrom toLowerCase seen xs) \<Longrightarrow> find (\<lambda>y. toLowerCase y = toLowerCase x) xs = Some x"
proof (induction xs arbitrary: seen)
  case Nil
  then show ?case by simp
next
  case (Cons y ys)
  show ?case
  proof (cases "toLowerCase y \<in> seen")
    case True
    with Cons.prems have m: "x \<in> set (firstSeenFrom toLowerCase seen ys)" by simp
    with firstSeenFrom_distinct [of toLowerCase seen ys] True have "toLowerCase y \<noteq> toLowerCase x" by auto
    with Cons.IH [OF m] show ?thesis by simp
  next
    case False
    with Cons.prems consider "x = y" | "x \<in> set (firstSeenFrom toLowerCase (insert (toLowerCase y) seen) ys)"
      by auto
    then show ?thesis
    proof cases
      case 1
      then show ?thesis by simp
    next
      case 2
      with firstSeenFrom_distinct [of toLowerCase "insert (toLowerCase y) seen" ys]
      have "toLowerCase y \<noteq> toLowerCase x" by auto
      with Cons.IH [OF 2] show ?thesis by simp
    qed
  qed
qed

lemma dedupeLabels_spec:
  "dedupeLabels toLowerCase (Some xs) =
     (let kept = take 5 (firstSeen toLowerCase (filter (\<lambda>s. s \<noteq> []) (map trim xs)))
      in if kept = [] then None else Some kept)"
proof (cases "xs = []")
  case True
  then show ?thesis by (simp add: dedupeLabels_def firstSeen_def)
next
  case False
  have "dedupeLoop toLowerCase xs {} [] = take 5 (firstSeen toLowerCase (filter (\<lambda>s. s \<noteq> []) (map trim xs)))"
    using dedupeLoop_spec [of "[]" toLowerCase xs "{}"] by (simp add: firstSeen_def)
  with False show ?thesis by (simp add: dedupeLabels_def Let_def)
qed

lemma normalizeLabels_spec:
  "normalizeLabels toLowerCase preferred fallback context inferred =
     (case labelSource preferred fallback inferred of
        None \<Rightarrow> None
      | Some source \<Rightarrow>
          (let kept = take 5 (firstSeen toLowerCase (filter (\<lambda>s. s \<noteq> [])
                 (map trim (keepTruthy (map (canonicalLabel toLowerCase context) source)))))
           in if kept = [] then None else Some kept))"
proof (cases "labelSource preferred fallback inferred")
  case None
  then show ?thesis by (simp add: normalizeLabels_def)
next
  case (Some source)
  show ?thesis
  proof (cases "source = []")
    case True
    with Some show ?thesis by (simp add: normalizeLabels_def firstSeen_def)
  next
    case False
    with Some show ?thesis
      by (simp add: normalizeLabels_def dedupeLabels_spec)
  qed
qed

lemma normalizeLabels_facts:
  assumes "normalizeLabels toLowerCase preferred fallback context inferred = Some L"
  shows "L \<noteq> [] \<and> length L \<le> 5 \<and> distinct (map toLowerCase L)"
proof -
  from assms obtain source where src: "labelSource preferred fallback inferred = Some source"
    by (auto simp: normalizeLabels_def split: option.splits)
  let ?M = "filter (\<lambda>s. s \<noteq> []) (map trim (keepTruthy (map (canonicalLabel toLowerCase context) source)))"
  from assms src have L: "L = take 5 (firstSeen toLowerCase ?M)" and ne: "L \<noteq> []"
    unfolding normalizeLabels_spec by (auto simp: Let_def split: if_splits)
  have len: "length L \<le> 5" using L by simp
  have d: "distinct (map toLowerCase (firstSeen toLowerCase ?M))"
    using firstSeenFrom_distinct [of toLowerCase "{}" ?M] by (simp add: firstSeen_def)
  have dl: "distinct (map toLowerCase L)"
    unfolding L using d by (simp add: distinct_take take_map [symmetric])
  from ne len dl show ?thesis by blast
qed

lemma normalizeLabels_again:
  assumes ks: "\<And>a b. b \<noteq> [] \<Longrightarrow> trim b = b \<Longrightarrow> toLowerCase a = toLowerCase b \<Longrightarrow> trim a = a"
    and n: "normalizeLabels toLowerCase preferred fallback context inferred = Some L"
  shows "normalizeLabels toLowerCase (Some L) fallback' context inferred' = Some L"
proof -
  from n obtain source where src: "labelSource preferred fallback inferred = Some source"
    by (auto simp: normalizeLabels_def split: option.splits)
  let ?K = "keepTruthy (map (canonicalLabel toLowerCase context) source)"
  let ?M = "filter (\<lambda>s. s \<noteq> []) (map trim ?K)"
  have kfix: "canonicalLabel toLowerCase context m = Some m \<and> trim m = m \<and> m \<noteq> []"
    if "m \<in> set ?K" for m
  proof -
    from that have mne: "m \<noteq> []" and "Some m \<in> set (map (canonicalLabel toLowerCase context) source)"
      using keepTruthy_nonempty by blast+
    then obtain x where x: "canonicalLabel toLowerCase context x = Some m" by auto
    have "canonicalLabel toLowerCase context m = Some m \<and> trim m = m"
    proof (rule canonicalLabel_fixed [OF _ x mne])
      fix a b :: jsstring
      assume "b \<noteq> []" "trim b = b" "toLowerCase a = toLowerCase b"
      then show "trim a = a" by (rule ks)
    qed
    with mne show ?thesis by simp
  qed
  then have "map trim ?K = ?K" by (simp add: map_idI)
  moreover have "filter (\<lambda>s. s \<noteq> []) ?K = ?K" using kfix by (auto intro!: filter_True)
  ultimately have MK: "?M = ?K" by simp
  from n src have L: "L = take 5 (firstSeen toLowerCase ?M)"
    unfolding normalizeLabels_spec by (auto simp: Let_def split: if_splits)
  from normalizeLabels_facts [OF n]
  have ne: "L \<noteq> []" and len: "length L \<le> 5" and dl: "distinct (map toLowerCase L)" by blast+
  have sub: "set L \<subseteq> set ?K"
    unfolding L MK using firstSeenFrom_distinct [of toLowerCase "{}" ?K]
      set_take_subset [of 5 "firstSeen toLowerCase ?K"]
    by (auto simp: firstSeen_def)
  have fx: "canonicalLabel toLowerCase context m = Some m \<and> trim m = m \<and> m \<noteq> []"
    if "m \<in> set L" for m
    using that sub kfix by blast
  from fx have mp: "map (canonicalLabel toLowerCase context) L = map Some L" by simp
  have nn: "[] \<notin> set L" using fx by blast
  have K': "keepTruthy (map (canonicalLabel toLowerCase context) L) = L"
    unfolding mp using nn by (rule keepTruthy_Some)
  have "map trim L = L" using fx by (simp add: map_idI)
  moreover have "filter (\<lambda>s. s \<noteq> []) L = L" using nn by (auto intro!: filter_True)
  ultimately have M': "filter (\<lambda>s. s \<noteq> []) (map trim L) = L" by simp
  have fs: "firstSeen toLowerCase L = L"
    using firstSeenFrom_id [OF dl, of "{}"] by (simp add: firstSeen_def)
  have src': "labelSource (Some L) fallback' inferred' = Some L"
    using ne by (simp add: labelSource_def nonEmptyList_def)
  show ?thesis
    unfolding normalizeLabels_spec src' using K' M' fs len ne by (simp add: Let_def)
qed

lemma firstSeenFrom_subseq: "subseq (firstSeenFrom toLowerCase seen xs) xs"
  by (induction xs arbitrary: seen) auto

lemmas c9_eval = normalizeLabels_def labelSource_def nonEmptyList_def orElse_def canonicalLabel_def
  dedupeLabels_def trim_def isWhiteSpace_def asciiLower_def lowerUnit_def js_def Let_def

text \<open>
  C9, as amended. Whatever function \<open>toLowerCase\<close> is, label normalization trims each
  label and replaces it by the catalog's name when the catalog has an entry with the same
  lower-case form; the results are trimmed again, and of those with the same lower-case
  form the first seen is kept (so duplicates collapse to the catalog's casing when there
  is a match, and to the first-seen casing otherwise), in the order of the first
  occurrences and capped at 5; an empty result is \<open>undefined\<close>, never an empty array.
  Where lower-casing neither adds nor removes white space at the ends of a string (a
  string with the lower-case form of a trimmed non-empty string is itself trimmed, which
  holds of \<open>String.prototype.toLowerCase\<close> since white space has no case), normalizing a
  normalized list again, against the same catalog, gives the same list.
\<close>

theorem normalizeLabels_stable:
  "normalizeLabels toLowerCase preferred fallback context inferred =
     (case labelSource preferred fallback inferred of
        None \<Rightarrow> None
      | Some source \<Rightarrow>
          (let kept = take 5 (firstSeen toLowerCase (filter (\<lambda>s. s \<noteq> [])
                 (map trim (keepTruthy (map (canonicalLabel toLowerCase context) source)))))
           in if kept = [] then None else Some kept)) \<and>
   dedupeLabels toLowerCase (Some xs) =
     (let kept = take 5 (firstSeen toLowerCase (filter (\<lambda>s. s \<noteq> []) (map trim xs)))
      in if kept = [] then None else Some kept) \<and>
   subseq (firstSeen toLowerCase ys) ys \<and>
   distinct (map toLowerCase (firstSeen toLowerCase ys)) \<and>
   (\<forall>x \<in> set (firstSeen toLowerCase ys).
      find (\<lambda>y. toLowerCase y = toLowerCase x) ys = Some x) \<and>
   (\<forall>L. normalizeLabels toLowerCase preferred fallback context inferred = Some L \<longrightarrow>
      L \<noteq> [] \<and> length L \<le> 5 \<and> distinct (map toLowerCase L) \<and>
      ((\<forall>a b. b \<noteq> [] \<and> trim b = b \<and> toLowerCase a = toLowerCase b \<longrightarrow> trim a = a) \<longrightarrow>
         normalizeLabels toLowerCase (Some L) fallback' context inferred' = Some L))"
proof -
  have a: "subseq (firstSeen toLowerCase ys) ys"
    by (simp add: firstSeen_def firstSeenFrom_subseq)
  have b: "distinct (map toLowerCase (firstSeen toLowerCase ys))"
    using firstSeenFrom_distinct [of toLowerCase "{}" ys] by (simp add: firstSeen_def)
  have c: "\<forall>x \<in> set (firstSeen toLowerCase ys).
      find (\<lambda>y. toLowerCase y = toLowerCase x) ys = Some x"
    using firstSeenFrom_first [of _ toLowerCase "{}" ys] by (simp add: firstSeen_def)
  have d: "L \<noteq> [] \<and> length L \<le> 5 \<and> distinct (map toLowerCase L) \<and>
      ((\<forall>a b. b \<noteq> [] \<and> trim b = b \<and> toLowerCase a = toLowerCase b \<longrightarrow> trim a = a) \<longrightarrow>
         normalizeLabels toLowerCase (Some L) fallback' context inferred' = Some L)"
    if n: "normalizeLabels toLowerCase preferred fallback context inferred = Some L" for L
  proof -
    have "normalizeLabels toLowerCase (Some L) fallback' context inferred' = Some L"
      if "\<forall>a b. b \<noteq> [] \<and> trim b = b \<and> toLowerCase a = toLowerCase b \<longrightarrow> trim a = a"
    proof (rule normalizeLabels_again [OF _ n])
      fix a b :: jsstring
      assume "b \<noteq> []" "trim b = b" "toLowerCase a = toLowerCase b"
      with that show "trim a = a" by blast
    qed
    with normalizeLabels_facts [OF n] show ?thesis by blast
  qed
  from a b c d normalizeLabels_spec [of toLowerCase preferred fallback "context" inferred]
    dedupeLabels_spec [of toLowerCase xs]
  show ?thesis by blast
qed

theorem normalizeLabels_stable_witness:
  "normalizeLabels asciiLower (Some [js ''home'', js '' HOME'', js ''work'']) None
      \<lparr>md_projects = [], md_labels = [\<lparr>l_id = js ''7'', l_name = js ''Work''\<rparr>]\<rparr> None
     = Some [js ''home'', js ''Work''] \<and>
   normalizeLabels asciiLower (Some [js ''home'', js ''Work'']) None
      \<lparr>md_projects = [], md_labels = [\<lparr>l_id = js ''7'', l_name = js ''Work''\<rparr>]\<rparr> None
     = Some [js ''home'', js ''Work''] \<and>
   find (\<lambda>y. asciiLower y = asciiLower (js ''home'')) [js ''home'', js ''HOME''] = Some (js ''home'')"
proof -
  note t = normalizeLabels_stable [of asciiLower "Some [js ''home'', js '' HOME'', js ''work'']" None
      "\<lparr>md_projects = [], md_labels = [\<lparr>l_id = js ''7'', l_name = js ''Work''\<rparr>]\<rparr>" None
      "[]" "[js ''home'', js ''HOME'']" None None]
  have e: "normalizeLabels asciiLower (Some [js ''home'', js '' HOME'', js ''work'']) None
      \<lparr>md_projects = [], md_labels = [\<lparr>l_id = js ''7'', l_name = js ''Work''\<rparr>]\<rparr> None
     = Some [js ''home'', js ''Work'']"
    by (simp add: c9_eval)
  have k: "\<forall>a b. b \<noteq> [] \<and> trim b = b \<and> asciiLower a = asciiLower b \<longrightarrow> trim a = a"
    using asciiLower_keeps_trim by blast
  have f: "js ''home'' \<in> set (firstSeen asciiLower [js ''home'', js ''HOME''])"
    by (simp add: firstSeen_def)
  from t e k have g: "normalizeLabels asciiLower (Some [js ''home'', js ''Work'']) None
      \<lparr>md_projects = [], md_labels = [\<lparr>l_id = js ''7'', l_name = js ''Work''\<rparr>]\<rparr> None
     = Some [js ''home'', js ''Work'']"
    by blast
  from t f have h: "find (\<lambda>y. asciiLower y = asciiLower (js ''home'')) [js ''home'', js ''HOME'']
      = Some (js ''home'')"
    by blast
  from e g h show ?thesis by blast
qed

text \<open>
  C9 as stated fails where the catalog has the label in another casing: the duplicates
  \<open>work\<close> and \<open>WORK\<close> collapse to the catalog's \<open>Work\<close>, not to the first-seen \<open>work\<close>. The
  labels are ASCII, where \<open>toLowerCase\<close> is \<open>asciiLower\<close>.
\<close>

theorem normalizeLabels_casing_counterexample:
  "normalizeLabels asciiLower (Some [js ''work'', js ''WORK'']) None
      \<lparr>md_projects = [], md_labels = [\<lparr>l_id = js ''7'', l_name = js ''Work''\<rparr>]\<rparr> None
     = Some [js ''Work''] \<and>
   js ''Work'' \<noteq> js ''work''"
  by (simp add: c9_eval)

subsection \<open>Array payloads\<close>

lemma pluckArray_arr: "pluckArray (Some (JArr xs)) keys = Some xs"
  by simp

lemma pluckArray_obj: "pluckArray (Some (JObj props)) keys = pluckKeys props keys keys"
  by simp

lemma pluckKeys_step:
  "pluckKeys props (key # rest) keys =
     (case keyYield props keys key of Some a \<Rightarrow> Some a | None \<Rightarrow> pluckKeys props rest keys)"
  by (simp add: keyYield_def split: option.splits json.splits del: pluckArray.simps)

lemma pluckKeys_first:
  "\<forall>k \<in> set before. keyYield props keys k = None \<Longrightarrow>
   pluckKeys props (before @ key # after) keys =
     (case keyYield props keys key of Some a \<Rightarrow> Some a | None \<Rightarrow> pluckKeys props after keys)"
proof (induction before)
  case Nil
  show ?case by (simp only: append_Nil pluckKeys_step)
next
  case (Cons b before)
  then have "keyYield props keys b = None" and "\<forall>k \<in> set before. keyYield props keys k = None"
    by simp_all
  with Cons.IH show ?case by (simp only: append_Cons pluckKeys_step option.case)
qed

lemma containsArray_field:
  "map_of props key = Some v \<Longrightarrow> \<not> containsArray (JObj props) \<Longrightarrow> \<not> containsArray v"
proof -
  assume "map_of props key = Some v" and n: "\<not> containsArray (JObj props)"
  then have "(key, v) \<in> set props" by (simp add: map_of_SomeD)
  with n show ?thesis by (auto simp: list_ex_iff)
qed

lemma pluck_no_array:
  "(\<forall>j. v = Some j \<longrightarrow> \<not> containsArray j) \<longrightarrow> pluckArray v keys = None"
  "\<not> containsArray (JObj props) \<longrightarrow> pluckKeys props rest keys = None"
proof (induction v keys and props rest keys rule: pluckArray_pluckKeys.induct)
  case (1 v keys)
  show ?case
  proof
    assume h: "\<forall>j. v = Some j \<longrightarrow> \<not> containsArray j"
    show "pluckArray v keys = None"
    proof (cases v)
      case None
      then show ?thesis by simp
    next
      case (Some j)
      with h have n: "\<not> containsArray j" by simp
      show ?thesis
      proof (cases j)
        case (JObj props)
        with Some n 1 show ?thesis by simp
      next
        case (JArr xs)
        with n show ?thesis by simp
      qed (simp_all add: Some)
    qed
  qed
next
  case (2 props keys)
  show ?case by simp
next
  case (3 props key rest keys)
  show ?case
  proof
    assume n: "\<not> containsArray (JObj props)"
    show "pluckKeys props (key # rest) keys = None"
    proof (cases "map_of props key")
      case None
      with 3 n show ?thesis by (simp del: pluckArray.simps)
    next
      case (Some x)
      have nx: "\<not> containsArray x" using containsArray_field [OF Some n] .
      show ?thesis
      proof (cases x)
        case (JObj inner)
        with 3 Some n nx show ?thesis by (simp del: pluckArray.simps)
      next
        case (JArr xs)
        with nx show ?thesis by simp
      next
        case JNull
        with 3 Some n show ?thesis by (simp del: pluckArray.simps)
      next
        case (JBool b)
        with 3 Some n show ?thesis by (simp del: pluckArray.simps)
      next
        case (JNum r)
        with 3 Some n show ?thesis by (simp del: pluckArray.simps)
      next
        case (JStr t)
        with 3 Some n show ?thesis by (simp del: pluckArray.simps)
      qed
    qed
  qed
qed


lemma extract_direct:
  assumes "parseToolJson jsonParse response = Some (JObj props)"
    and "searchKeys preferredKeys = before @ key # after"
    and "\<forall>k \<in> set before. keyYield props (searchKeys preferredKeys) k = None"
    and "map_of props key = Some (JArr xs)"
  shows "extractArrayPayload jsonParse response preferredKeys = xs"
proof -
  have "keyYield props (searchKeys preferredKeys) key = Some xs"
    using assms(4) by (simp add: keyYield_def)
  then have "pluckKeys props (before @ key # after) (searchKeys preferredKeys) = Some xs"
    using pluckKeys_first [OF assms(3), of key after] by simp
  then have "pluckArray (Some (JObj props)) (searchKeys preferredKeys) = Some xs"
    using assms(2) by (simp only: pluckArray_obj)
  then show ?thesis
    using assms(1) by (simp only: extractArrayPayload_def Let_def option.case)
qed

lemma extract_nested:
  assumes "parseToolJson jsonParse response = Some (JObj props)"
    and "searchKeys preferredKeys = before @ key # after"
    and "\<forall>k \<in> set before. keyYield props (searchKeys preferredKeys) k = None"
    and "map_of props key = Some (JObj inner)"
    and "searchKeys preferredKeys = before' @ key' # after'"
    and "\<forall>k \<in> set before'. keyYield inner (searchKeys preferredKeys) k = None"
    and "map_of inner key' = Some (JArr xs)"
  shows "extractArrayPayload jsonParse response preferredKeys = xs"
proof -
  have "keyYield inner (searchKeys preferredKeys) key' = Some xs"
    using assms(7) by (simp add: keyYield_def)
  then have "pluckKeys inner (before' @ key' # after') (searchKeys preferredKeys) = Some xs"
    using pluckKeys_first [OF assms(6), of key' after'] by simp
  then have "pluckArray (Some (JObj inner)) (searchKeys preferredKeys) = Some xs"
    using assms(5) by (simp only: pluckArray_obj)
  then have "keyYield props (searchKeys preferredKeys) key = Some xs"
    using assms(4) by (simp add: keyYield_def del: pluckArray.simps)
  then have "pluckKeys props (before @ key # after) (searchKeys preferredKeys) = Some xs"
    using pluckKeys_first [OF assms(3), of key after] by simp
  then have "pluckArray (Some (JObj props)) (searchKeys preferredKeys) = Some xs"
    using assms(2) by (simp only: pluckArray_obj)
  then show ?thesis
    using assms(1) by (simp only: extractArrayPayload_def Let_def option.case)
qed

lemma extract_none:
  assumes "case parseToolJson jsonParse response of None \<Rightarrow> True | Some v \<Rightarrow> \<not> containsArray v"
  shows "extractArrayPayload jsonParse response preferredKeys = []"
proof -
  have "\<forall>j. parseToolJson jsonParse response = Some j \<longrightarrow> \<not> containsArray j"
    using assms by (auto split: option.splits)
  then have "pluckArray (parseToolJson jsonParse response) (searchKeys preferredKeys) = None"
    using pluck_no_array(1) by blast
  then show ?thesis
    by (simp only: extractArrayPayload_def Let_def option.case)
qed

text \<open>
  The keys searched are the six default keys when no preferred key list is passed, and the
  preferred keys alone otherwise. In the payload read from the response: a payload that is
  an array is returned as it is; an array directly under a searched key is returned when no
  earlier key yields an array; so is an array under a searched key of an object that is
  itself under a searched key; and when no array exists anywhere in the payload, or there is
  no payload, the result is the empty array.
\<close>

lemma extractArrayPayload_search:
  "searchKeys None = DEFAULT_COLLECTION_KEYS \<and> searchKeys (Some ks) = ks \<and>
   (\<forall>xs. parseToolJson jsonParse response = Some (JArr xs) \<longrightarrow>
      extractArrayPayload jsonParse response preferredKeys = xs) \<and>
   (\<forall>props before key after xs.
      parseToolJson jsonParse response = Some (JObj props) \<and>
      searchKeys preferredKeys = before @ key # after \<and>
      (\<forall>k \<in> set before. keyYield props (searchKeys preferredKeys) k = None) \<and>
      map_of props key = Some (JArr xs) \<longrightarrow>
      extractArrayPayload jsonParse response preferredKeys = xs) \<and>
   (\<forall>props before key after inner before' key' after' xs.
      parseToolJson jsonParse response = Some (JObj props) \<and>
      searchKeys preferredKeys = before @ key # after \<and>
      (\<forall>k \<in> set before. keyYield props (searchKeys preferredKeys) k = None) \<and>
      map_of props key = Some (JObj inner) \<and>
      searchKeys preferredKeys = before' @ key' # after' \<and>
      (\<forall>k \<in> set before'. keyYield inner (searchKeys preferredKeys) k = None) \<and>
      map_of inner key' = Some (JArr xs) \<longrightarrow>
      extractArrayPayload jsonParse response preferredKeys = xs) \<and>
   ((case parseToolJson jsonParse response of None \<Rightarrow> True | Some v \<Rightarrow> \<not> containsArray v) \<longrightarrow>
      extractArrayPayload jsonParse response preferredKeys = [])"
proof -
  have a: "searchKeys None = DEFAULT_COLLECTION_KEYS \<and> searchKeys (Some ks) = ks"
    by (simp add: searchKeys_def)
  have b: "\<forall>xs. parseToolJson jsonParse response = Some (JArr xs) \<longrightarrow>
      extractArrayPayload jsonParse response preferredKeys = xs"
    by (simp add: extractArrayPayload_def)
  from a b extract_direct [of jsonParse response _ preferredKeys]
    extract_nested [of jsonParse response _ preferredKeys]
    extract_none [of jsonParse response preferredKeys]
  show ?thesis by blast
qed

lemmas c8_eval = extractArrayPayload_def parseToolJson_def extractStructuredContent_def
  extractToolJsonBlock_def extractToolText_def searchKeys_def DEFAULT_COLLECTION_KEYS_def
  keyYield_def chain_def orElse_def truthyStr_def js_def Let_def
  callTodoistListTool_def tryCatch_def bind_def ret_def PROJECT_TOOL_ALIASES_def

text \<open>
  C8. The code departs from the stated behaviour, and from the comment on \<open>callTodoistListTool\<close>, by
  which the array payload is extracted regardless of the envelope (\<open>projects\<close>, \<open>items\<close>,
  \<open>structuredContent\<close>, etc.). A server that offers the tool \<open>todoist_projects\<close> resolves to
  the first project alias, whose result keys are \<open>data\<close> and \<open>projects\<close>; these keys alone are
  searched. For a response whose structured content holds the projects under \<open>items\<close>, the
  extraction, and with it \<open>callTodoistListTool\<close>, returns the empty array, whatever
  \<open>JSON.parse\<close> and \<open>toLowerCase\<close> are; the same response searched with the default keys
  yields the array.
\<close>

theorem extractArrayPayload_preferred_keys_only:
  "resolveListToolConfig [\<lparr>tool_name = js ''todoist_projects'', tool_description = None\<rparr>]
     (PROJECT_TOOL_ALIASES toLowerCase) =
     Some \<lparr>c_name = js ''todoist_projects'',
           c_args = Some [(js ''action'', JStr (js ''list'')), (js ''include_archived'', JBool False)],
           c_resultKeys = Some [js ''data'', js ''projects'']\<rparr> \<and>
   extractArrayPayload jsonParse
     \<lparr>structuredContent =
        Some (JObj [(js ''items'',
          JArr [JObj [(js ''id'', JStr (js ''1'')), (js ''name'', JStr (js ''Inbox''))]])]),
      structured_content = None, content = None\<rparr>
     (Some [js ''data'', js ''projects'']) = [] \<and>
   callTodoistListTool
     \<lparr>connect = ret (), listTools = ret None,
      callTool = (\<lambda>name args. ret
        \<lparr>structuredContent =
           Some (JObj [(js ''items'',
             JArr [JObj [(js ''id'', JStr (js ''1'')), (js ''name'', JStr (js ''Inbox''))]])]),
         structured_content = None, content = None\<rparr>),
      closeConnection = ret ()\<rparr>
     jsonParse
     \<lparr>c_name = js ''todoist_projects'',
      c_args = Some [(js ''action'', JStr (js ''list'')), (js ''include_archived'', JBool False)],
      c_resultKeys = Some [js ''data'', js ''projects'']\<rparr> w = (Inr [], w) \<and>
   extractArrayPayload jsonParse
     \<lparr>structuredContent =
        Some (JObj [(js ''items'',
          JArr [JObj [(js ''id'', JStr (js ''1'')), (js ''name'', JStr (js ''Inbox''))]])]),
      structured_content = None, content = None\<rparr>
     None = [JObj [(js ''id'', JStr (js ''1'')), (js ''name'', JStr (js ''Inbox''))]]"
  by (simp add: c8_eval)

subsection \<open>Resolution of the task-creation tool\<close>

lemma firstPreferred_find:
  "firstPreferred names toolsList = find (\<lambda>candidate. candidate \<in> tool_name ` set toolsList) names"
  by (induction names) (auto simp: list_ex_iff)

lemmas eff_defs = ret_def throw_def bind_def tryCatch_def fromSum_def

text \<open>
  C7. With the token that every call of the pipeline has, task-creation tool resolution
  returns the first name of the fixed preference list \<open>create_task\<close>, \<open>add-task\<close>,
  \<open>add_task\<close>, \<open>create-task\<close>, \<open>add-tasks\<close>, \<open>add_tasks\<close> that is the name of a tool of the
  catalog, whatever the descriptions say, and it raises an error when none of these names
  is in the catalog. The catalog is the one passed in, or the one the client lists.
\<close>

theorem resolveToolName_preference:
  "truthyStr token \<longrightarrow>
     preferredTools = [js ''create_task'', js ''add-task'', js ''add_task'', js ''create-task'',
                  js ''add-tasks'', js ''add_tasks''] \<and>
     resolveToolName client href token (Some toolsList) w =
       (case find (\<lambda>candidate. candidate \<in> tool_name ` set toolsList) preferredTools of
          Some candidate \<Rightarrow> (Inr candidate, w)
        | None \<Rightarrow> (Inl (noToolMessage toolsList href), w)) \<and>
     (listTools client w = (Inr (Some toolsList), w') \<longrightarrow>
      resolveToolName client href token None w =
        (case find (\<lambda>candidate. candidate \<in> tool_name ` set toolsList) preferredTools of
           Some candidate \<Rightarrow> (Inr candidate, w')
         | None \<Rightarrow> (Inl (noToolMessage toolsList href), w')))"
  by (auto simp: resolveToolName_def eff_defs firstPreferred_find [symmetric] preferredTools_def
      split: option.splits)


theorem resolveToolName_preference_witness:
  "resolveToolName
     \<lparr>connect = ret (), listTools = ret (Some [\<lparr>tool_name = js ''add_task'', tool_description = None\<rparr>]),
      callTool = (\<lambda>name args. throw (js ''offline'')), closeConnection = ret ()\<rparr>
     (js ''https://mcp.example/'') (Some (js ''token''))
     (Some [\<lparr>tool_name = js ''add-tasks'', tool_description = Some (js ''list projects'')\<rparr>,
            \<lparr>tool_name = js ''create-task'', tool_description = None\<rparr>]) (0::nat)
     = (Inr (js ''create-task''), 0) \<and>
   resolveToolName
     \<lparr>connect = ret (), listTools = ret (Some [\<lparr>tool_name = js ''add_task'', tool_description = None\<rparr>]),
      callTool = (\<lambda>name args. throw (js ''offline'')), closeConnection = ret ()\<rparr>
     (js ''https://mcp.example/'') (Some (js ''token'')) None (0::nat)
     = (Inr (js ''add_task''), 0) \<and>
   resolveToolName
     \<lparr>connect = ret (), listTools = ret (Some [\<lparr>tool_name = js ''add_task'', tool_description = None\<rparr>]),
      callTool = (\<lambda>name args. throw (js ''offline'')), closeConnection = ret ()\<rparr>
     (js ''https://mcp.example/'') (Some (js ''token''))
     (Some [\<lparr>tool_name = js ''find-projects'', tool_description = None\<rparr>]) (0::nat)
     = (Inl (noToolMessage [\<lparr>tool_name = js ''find-projects'', tool_description = None\<rparr>]
               (js ''https://mcp.example/'')), 0)"
proof -
  let ?c = "\<lparr>connect = ret (),
      listTools = ret (Some [\<lparr>tool_name = js ''add_task'', tool_description = None\<rparr>]),
      callTool = (\<lambda>name args. throw (js ''offline'')), closeConnection = ret ()\<rparr> :: nat Client"
  have tok: "truthyStr (Some (js ''token''))"
    by (simp add: truthyStr_def js_def)
  have l: "listTools ?c 0 = (Inr (Some [\<lparr>tool_name = js ''add_task'', tool_description = None\<rparr>]), 0)"
    by (simp add: ret_def)
  have a: "resolveToolName ?c (js ''https://mcp.example/'') (Some (js ''token''))
     (Some [\<lparr>tool_name = js ''add-tasks'', tool_description = Some (js ''list projects'')\<rparr>,
            \<lparr>tool_name = js ''create-task'', tool_description = None\<rparr>]) 0
     = (Inr (js ''create-task''), 0)"
    using resolveToolName_preference [of "Some (js ''token'')" ?c "js ''https://mcp.example/''"
        "[\<lparr>tool_name = js ''add-tasks'', tool_description = Some (js ''list projects'')\<rparr>,
          \<lparr>tool_name = js ''create-task'', tool_description = None\<rparr>]" 0 0] tok
    by (simp add: preferredTools_def js_def)
  have b: "resolveToolName ?c (js ''https://mcp.example/'') (Some (js ''token'')) None 0
     = (Inr (js ''add_task''), 0)"
    using resolveToolName_preference [of "Some (js ''token'')" ?c "js ''https://mcp.example/''"
        "[\<lparr>tool_name = js ''add_task'', tool_description = None\<rparr>]" 0 0] tok l
    by (simp add: preferredTools_def js_def)
  have c: "resolveToolName ?c (js ''https://mcp.example/'') (Some (js ''token''))
     (Some [\<lparr>tool_name = js ''find-projects'', tool_description = None\<rparr>]) 0
     = (Inl (noToolMessage [\<lparr>tool_name = js ''find-projects'', tool_description = None\<rparr>]
               (js ''https://mcp.example/'')), 0)"
    using resolveToolName_preference [of "Some (js ''token'')" ?c "js ''https://mcp.example/''"
        "[\<lparr>tool_name = js ''find-projects'', tool_description = None\<rparr>]" 0 0] tok
    by (simp add: preferredTools_def js_def)
  from a b c show ?thesis by blast
qed

subsection \<open>The sync loop\<close>

lemma syncStep_spec:
  assumes "\<not> closed s"
  shows "syncStep client parse toolName input task results s =
     (case attemptCreate client parse toolName input task (world s) of
        (r, w') \<Rightarrow>
          (Inr (results @ [resultOf task r]),
           s\<lparr>world := w', queue := queue s @ eventsOf task r\<rparr>))"
proof (cases "attemptCreate client parse toolName input task (world s)")
  case (Pair r w')
  show ?thesis
  proof (cases r)
    case (Inl msg)
    with Pair assms show ?thesis
      by (simp add: syncStep_def bind_def send_def lift_def recordFailure_def ret_def
          resultOf_def eventsOf_def)
  next
    case (Inr parsed)
    with Pair assms show ?thesis
      by (simp add: syncStep_def bind_def send_def lift_def ret_def resultOf_def eventsOf_def)
  qed
qed

lemma outcomes_length: "length (outcomes client parse toolName input tasks w) = length tasks"
  by (induction tasks arbitrary: w) (auto split: prod.splits)

lemma syncLoop_spec:
  "\<not> closed s \<Longrightarrow>
   syncLoop client parse toolName input tasks results s =
     (Inr (results @ syncResults client parse toolName input tasks (world s)),
      s\<lparr>world := worldAfter client parse toolName input tasks (world s),
        queue := queue s @ syncEvents client parse toolName input tasks (world s)\<rparr>)"
proof (induction tasks arbitrary: results s)
  case Nil
  then show ?case by (simp add: ret_def syncResults_def syncEvents_def)
next
  case (Cons task rest)
  obtain r w' where a: "attemptCreate client parse toolName input task (world s) = (r, w')"
    by (cases "attemptCreate client parse toolName input task (world s)")
  let ?s1 = "s\<lparr>world := w', queue := queue s @ eventsOf task r\<rparr>"
  have st: "syncStep client parse toolName input task results s =
      (Inr (results @ [resultOf task r]), ?s1)"
    using syncStep_spec [OF Cons.prems, of client parse toolName input task results] a by simp
  have c: "\<not> closed ?s1" using Cons.prems by simp
  show ?case
    using Cons.IH [OF c, of "results @ [resultOf task r]"] st a
    by (simp add: bind_def syncResults_def syncEvents_def)
qed

lemma syncResults_facts:
  "length (syncResults client parse toolName input tasks w) = length tasks \<and>
   map planned (syncResults client parse toolName input tasks w) = tasks"
proof -
  have "map planned (map2 resultOf tasks os) = tasks" if "length os = length tasks" for os
    using that
  proof (induction tasks arbitrary: os)
    case Nil
    then show ?case by simp
  next
    case (Cons t ts)
    then obtain out rest where "os = out # rest" by (cases os) auto
    with Cons show ?case
      by (cases out) (simp_all add: resultOf_def failedResult_def createdResult_def)
  qed
  then show ?thesis
    by (simp add: syncResults_def outcomes_length)
qed

lemma syncResults_status:
  assumes "i < length tasks"
  shows "case outcomes client parse toolName input tasks w ! i of
           Inl msg \<Rightarrow> syncResults client parse toolName input tasks w ! i = failedResult (tasks ! i) msg
         | Inr parsed \<Rightarrow>
             syncResults client parse toolName input tasks w ! i = createdResult (tasks ! i) parsed"
proof -
  have "syncResults client parse toolName input tasks w ! i =
      resultOf (tasks ! i) (outcomes client parse toolName input tasks w ! i)"
    using assms by (simp add: syncResults_def outcomes_length)
  then show ?thesis by (simp add: resultOf_def split: sum.splits)
qed

lemma syncResults_three:
  assumes "outcomes client parse toolName input tasks w = [Inr a, Inl m, Inr b]"
  shows "map status (syncResults client parse toolName input tasks w) = [created, failed, created] \<and>
         countStatus created (syncResults client parse toolName input tasks w) = 2 \<and>
         countStatus failed (syncResults client parse toolName input tasks w) = 1"
proof -
  have "length tasks = 3"
    using outcomes_length [of client parse toolName input tasks w] assms by simp
  then obtain t1 t2 t3 where "tasks = [t1, t2, t3]"
    by (cases tasks; cases "tl tasks"; cases "tl (tl tasks)") auto
  with assms show ?thesis
    by (simp add: syncResults_def resultOf_def countStatus_def failedResult_def createdResult_def)
qed


lemma syncWithTodoist_spec:
  assumes "\<not> closed s" "validUrl ext (orEmpty (TODOIST_MCP_URL env))"
    and "resolveToolName client (urlHref ext (orEmpty (TODOIST_MCP_URL env))) (TODOIST_TOKEN env)
           availableTools (world s) = (Inr toolName, w0)"
  shows "syncWithTodoist ext client tasks env input availableTools s =
     (Inr (syncResults client (JSON_parse ext) toolName input tasks w0),
      s\<lparr>world := worldAfter client (JSON_parse ext) toolName input tasks w0,
        queue := queue s @ syncEvents client (JSON_parse ext) toolName input tasks w0\<rparr>)"
proof -
  have c: "\<not> closed (s\<lparr>world := w0\<rparr>)" using assms(1) by simp
  show ?thesis
    using syncLoop_spec [OF c, of client "JSON_parse ext" toolName input tasks "[]"] assms(2,3)
    by (simp add: syncWithTodoist_def bind_def fromSum_def ensureUrl_def lift_def)
qed

text \<open>
  C2. On an open stream the sync loop returns, for every list of tasks and whatever the
  outcomes of the external calls are, one result per task, in the order of the tasks: a call
  that throws gives the entry \<open>failed\<close> with the error's message, and the loop goes on to
  the next task; a call that returns gives the entry \<open>created\<close>. For three tasks of which
  only the second call throws the statuses are \<open>created\<close>, \<open>failed\<close>, \<open>created\<close> and the
  counts of the final event are 2 and 1. Once the creation tool is resolved,
  \<open>syncWithTodoist\<close> returns the result of this loop.
\<close>

theorem syncWithTodoist_continues:
  "\<not> closed s \<longrightarrow>
     syncLoop client parse toolName input tasks [] s =
       (Inr (syncResults client parse toolName input tasks (world s)),
        s\<lparr>world := worldAfter client parse toolName input tasks (world s),
          queue := queue s @ syncEvents client parse toolName input tasks (world s)\<rparr>) \<and>
     length (syncResults client parse toolName input tasks (world s)) = length tasks \<and>
     map planned (syncResults client parse toolName input tasks (world s)) = tasks \<and>
     (\<forall>i < length tasks.
        case outcomes client parse toolName input tasks (world s) ! i of
          Inl msg \<Rightarrow>
            syncResults client parse toolName input tasks (world s) ! i =
              \<lparr>planned = tasks ! i, status = failed, todoistId = None, error = Some msg\<rparr>
        | Inr parsed \<Rightarrow>
            syncResults client parse toolName input tasks (world s) ! i =
              \<lparr>planned = tasks ! i, status = created, todoistId = chain parsed r_id,
               error = None\<rparr>) \<and>
     (\<forall>a m b.
        outcomes client parse toolName input tasks (world s) = [Inr a, Inl m, Inr b] \<longrightarrow>
        map status (syncResults client parse toolName input tasks (world s)) =
          [created, failed, created] \<and>
        countStatus created (syncResults client parse toolName input tasks (world s)) = 2 \<and>
        countStatus failed (syncResults client parse toolName input tasks (world s)) = 1) \<and>
     (\<forall>w0.
        validUrl ext (orEmpty (TODOIST_MCP_URL env)) \<and>
        resolveToolName client (urlHref ext (orEmpty (TODOIST_MCP_URL env))) (TODOIST_TOKEN env)
          availableTools (world s) = (Inr toolName, w0) \<longrightarrow>
        syncWithTodoist ext client tasks env input availableTools s =
          (Inr (syncResults client (JSON_parse ext) toolName input tasks w0),
           s\<lparr>world := worldAfter client (JSON_parse ext) toolName input tasks w0,
             queue := queue s @ syncEvents client (JSON_parse ext) toolName input tasks w0\<rparr>))"
proof
  assume o: "\<not> closed s"
  have a: "syncLoop client parse toolName input tasks [] s =
       (Inr (syncResults client parse toolName input tasks (world s)),
        s\<lparr>world := worldAfter client parse toolName input tasks (world s),
          queue := queue s @ syncEvents client parse toolName input tasks (world s)\<rparr>)"
    using syncLoop_spec [OF o, of client parse toolName input tasks "[]"] by simp
  have b: "\<forall>i < length tasks.
        case outcomes client parse toolName input tasks (world s) ! i of
          Inl msg \<Rightarrow>
            syncResults client parse toolName input tasks (world s) ! i =
              \<lparr>planned = tasks ! i, status = failed, todoistId = None, error = Some msg\<rparr>
        | Inr parsed \<Rightarrow>
            syncResults client parse toolName input tasks (world s) ! i =
              \<lparr>planned = tasks ! i, status = created, todoistId = chain parsed r_id,
               error = None\<rparr>"
    using syncResults_status [of _ tasks client parse toolName input "world s",
        unfolded failedResult_def createdResult_def]
    by blast
  have c: "\<forall>w0.
        validUrl ext (orEmpty (TODOIST_MCP_URL env)) \<and>
        resolveToolName client (urlHref ext (orEmpty (TODOIST_MCP_URL env))) (TODOIST_TOKEN env)
          availableTools (world s) = (Inr toolName, w0) \<longrightarrow>
        syncWithTodoist ext client tasks env input availableTools s =
          (Inr (syncResults client (JSON_parse ext) toolName input tasks w0),
           s\<lparr>world := worldAfter client (JSON_parse ext) toolName input tasks w0,
             queue := queue s @ syncEvents client (JSON_parse ext) toolName input tasks w0\<rparr>)"
    using syncWithTodoist_spec [OF o] by blast
  from a b c syncResults_facts [of client parse toolName input tasks "world s"]
    syncResults_three [of client parse toolName input tasks "world s"]
  show "syncLoop client parse toolName input tasks [] s =
       (Inr (syncResults client parse toolName input tasks (world s)),
        s\<lparr>world := worldAfter client parse toolName input tasks (world s),
          queue := queue s @ syncEvents client parse toolName input tasks (world s)\<rparr>) \<and>
     length (syncResults client parse toolName input tasks (world s)) = length tasks \<and>
     map planned (syncResults client parse toolName input tasks (world s)) = tasks \<and>
     (\<forall>i < length tasks.
        case outcomes client parse toolName input tasks (world s) ! i of
          Inl msg \<Rightarrow>
            syncResults client parse toolName input tasks (world s) ! i =
              \<lparr>planned = tasks ! i, status = failed, todoistId = None, error = Some msg\<rparr>
        | Inr parsed \<Rightarrow>
            syncResults client parse toolName input tasks (world s) ! i =
              \<lparr>planned = tasks ! i, status = created, todoistId = chain parsed r_id,
               error = None\<rparr>) \<and>
     (\<forall>a m b.
        outcomes client parse toolName input tasks (world s) = [Inr a, Inl m, Inr b] \<longrightarrow>
        map status (syncResults client parse toolName input tasks (world s)) =
          [created, failed, created] \<and>
        countStatus created (syncResults client parse toolName input tasks (world s)) = 2 \<and>
        countStatus failed (syncResults client parse toolName input tasks (world s)) = 1) \<and>
     (\<forall>w0.
        validUrl ext (orEmpty (TODOIST_MCP_URL env)) \<and>
        resolveToolName client (urlHref ext (orEmpty (TODOIST_MCP_URL env))) (TODOIST_TOKEN env)
          availableTools (world s) = (Inr toolName, w0) \<longrightarrow>
        syncWithTodoist ext client tasks env input availableTools s =
          (Inr (syncResults client (JSON_parse ext) toolName input tasks w0),
           s\<lparr>world := worldAfter client (JSON_parse ext) toolName input tasks w0,
             queue := queue s @ syncEvents client (JSON_parse ext) toolName input tasks w0\<rparr>))"
    by blast
qed


theorem syncWithTodoist_continues_witness:
  "map status
     (syncResults
        \<lparr>connect = ret (), listTools = ret None,
         callTool = (\<lambda>name args w.
            (if w = Suc 0 then Inl (js ''boom'')
             else Inr \<lparr>structuredContent = Some (JObj [(js ''id'', JStr (js ''t''))]),
                       structured_content = None, content = None\<rparr>, Suc w)),
         closeConnection = ret ()\<rparr>
        (\<lambda>t. None) (js ''add-task'')
        \<lparr>in_prompt = js ''three things'', in_timezone = None, in_due = None, in_preferences = None,
         in_labels = None, in_priority = None, in_maxTasks = 5\<rparr>
        [\<lparr>title = js ''a'', description = None, priority = None, labels = None, due = None,
          projectId = None, projectName = None\<rparr>,
         \<lparr>title = js ''b'', description = None, priority = None, labels = None, due = None,
          projectId = None, projectName = None\<rparr>,
         \<lparr>title = js ''c'', description = None, priority = None, labels = None, due = None,
          projectId = None, projectName = None\<rparr>]
        (0::nat))
     = [created, failed, created]"
proof -
  let ?c = "\<lparr>connect = ret (), listTools = ret None,
         callTool = (\<lambda>name args w.
            (if w = Suc 0 then Inl (js ''boom'')
             else Inr \<lparr>structuredContent = Some (JObj [(js ''id'', JStr (js ''t''))]),
                       structured_content = None, content = None\<rparr>, Suc w)),
         closeConnection = ret ()\<rparr> :: nat Client"
  let ?input = "\<lparr>in_prompt = js ''three things'', in_timezone = None, in_due = None,
         in_preferences = None, in_labels = None, in_priority = None, in_maxTasks = 5\<rparr>"
  let ?tasks = "[\<lparr>title = js ''a'', description = None, priority = None, labels = None, due = None,
          projectId = None, projectName = None\<rparr>,
         \<lparr>title = js ''b'', description = None, priority = None, labels = None, due = None,
          projectId = None, projectName = None\<rparr>,
         \<lparr>title = js ''c'', description = None, priority = None, labels = None, due = None,
          projectId = None, projectName = None\<rparr>]"
  let ?s = "\<lparr>world = 0::nat, queue = [], closed = False\<rparr>"
  let ?p = "Some \<lparr>r_id = Some (JStr (js ''t'')), r_message = None\<rparr>"
  have o: "\<not> closed ?s" by simp
  have out: "outcomes ?c (\<lambda>t. None) (js ''add-task'') ?input ?tasks (world ?s) =
      [Inr ?p, Inl (js ''boom''), Inr ?p]"
    by (simp add: attemptCreate_def bind_def ret_def parseTodoistResponse_def parseToolJson_def
        extractStructuredContent_def getProp_def coalesce_def nullish_def js_def)
  from syncWithTodoist_continues [of ?s ?c "\<lambda>t. None" "js ''add-task''" ?input ?tasks] o out
  show ?thesis by simp
qed

subsection \<open>Plan generation\<close>

lemma sliceTo_length: "0 \<le> n \<Longrightarrow> int (length (sliceTo xs n)) \<le> n"
  by (simp add: sliceTo_def)

lemma generatePlan_Inr:
  assumes "generatePlan ext input scenario decision context priorityHint inferredProject
             inferredLabels w = (Inr plan, w')"
  shows "\<exists>raw. aiPlan ext input scenario decision context priorityHint inferredProject
             inferredLabels w = (Inr raw, w') \<and>
           plan_tasks raw \<noteq> [] \<and>
           gp_tasks plan \<noteq> [] \<and>
           length (gp_tasks plan) = length (sliceTo (plan_tasks raw) (maxTasks scenario))"
proof (cases "aiPlan ext input scenario decision context priorityHint inferredProject inferredLabels w")
  case (Pair r w1)
  show ?thesis
  proof (cases r)
    case (Inl msg)
    with Pair assms show ?thesis by (simp add: generatePlan_def bind_def)
  next
    case (Inr raw)
    show ?thesis
    proof (cases "aiPlanSchema_parse (isDatetime ext) raw")
      case (Inl msg)
      with Pair Inr assms show ?thesis by (simp add: generatePlan_def bind_def fromSum_def)
    next
      case p: (Inr parsed)
      then have pr: "parsed = raw" and ne: "plan_tasks raw \<noteq> []"
        by (auto simp: aiPlanSchema_parse_def MIN_TASKS_def split: if_splits)
      from Pair Inr p pr assms have
        "(if sliceTo (plan_tasks raw) (maxTasks scenario) = []
          then throw (js ''The assistant did not return any tasks'')
          else ret \<lparr>gp_summary = plan_summary raw,
                   gp_tasks = map (\<lambda>task. normalizeTask (lowerCase ext) task input context priorityHint
                                     inferredProject inferredLabels)
                                (sliceTo (plan_tasks raw) (maxTasks scenario))\<rparr>) w1
         = (Inr plan, w')"
        by (simp add: generatePlan_def bind_def fromSum_def Let_def)
      then have "sliceTo (plan_tasks raw) (maxTasks scenario) \<noteq> [] \<and> w1 = w' \<and>
          gp_tasks plan = map (\<lambda>task. normalizeTask (lowerCase ext) task input context priorityHint
                                     inferredProject inferredLabels)
                                (sliceTo (plan_tasks raw) (maxTasks scenario))"
        by (auto simp: throw_def ret_def split: if_splits)
      with Pair Inr ne show ?thesis by auto
    qed
  qed
qed

lemma generatePlan_length:
  assumes "0 \<le> maxTasks scenario"
    and "generatePlan ext input scenario decision context priorityHint inferredProject
             inferredLabels w = (Inr plan, w')"
  shows "1 \<le> length (gp_tasks plan) \<and> int (length (gp_tasks plan)) \<le> maxTasks scenario"
  using generatePlan_Inr [OF assms(2)]
proof (elim exE conjE)
  fix raw
  assume ne: "gp_tasks plan \<noteq> []"
    and len: "length (gp_tasks plan) = length (sliceTo (plan_tasks raw) (maxTasks scenario))"
  from ne have "1 \<le> length (gp_tasks plan)" by (cases "gp_tasks plan") auto
  with len sliceTo_length [OF assms(1), of "plan_tasks raw"] show ?thesis by simp
qed

lemma generatePlan_empty:
  assumes "aiPlan ext input scenario decision context priorityHint inferredProject
             inferredLabels w = (Inr raw, w')"
    and "plan_tasks raw = []"
  shows "generatePlan ext input scenario decision context priorityHint inferredProject
             inferredLabels w = (Inl (js ''ZodError''), w')"
  using assms
  by (simp add: generatePlan_def bind_def fromSum_def aiPlanSchema_parse_def MIN_TASKS_def)

text \<open>
  C4. A plan that \<open>generatePlan\<close> returns has at least one task and, for a scenario whose
  bound is not negative, at most \<open>scenario.maxTasks\<close> tasks; a model answer without tasks
  is raised as an error, and no returned plan is empty. The scenario that
  \<open>determineScenario\<close> selects has \<open>maxTasks\<close> between 1 and 10 for every intent decision
  and request, so the bound holds for the plan of every request.
\<close>

theorem generatePlan_bounds:
  "(\<forall>plan w'.
      0 \<le> maxTasks scenario \<and>
      generatePlan ext input scenario decision context priorityHint inferredProject
        inferredLabels w = (Inr plan, w') \<longrightarrow>
      1 \<le> length (gp_tasks plan) \<and> int (length (gp_tasks plan)) \<le> maxTasks scenario) \<and>
   (\<forall>plan w'.
      generatePlan ext input (determineScenario decision' input') decision context priorityHint
        inferredProject inferredLabels w = (Inr plan, w') \<longrightarrow>
      1 \<le> length (gp_tasks plan) \<and>
      int (length (gp_tasks plan)) \<le> maxTasks (determineScenario decision' input')) \<and>
   (\<forall>plan w'.
      generatePlan ext input scenario decision context priorityHint inferredProject
        inferredLabels w = (Inr plan, w') \<longrightarrow> gp_tasks plan \<noteq> []) \<and>
   (\<forall>raw w'.
      aiPlan ext input scenario decision context priorityHint inferredProject inferredLabels w
        = (Inr raw, w') \<and> plan_tasks raw = [] \<longrightarrow>
      (\<exists>msg. generatePlan ext input scenario decision context priorityHint inferredProject
                inferredLabels w = (Inl msg, w'))) \<and>
   1 \<le> maxTasks (determineScenario decision' input') \<and>
   maxTasks (determineScenario decision' input') \<le> 10"
proof -
  have r: "1 \<le> maxTasks (determineScenario decision' input') \<and>
      maxTasks (determineScenario decision' input') \<le> 10"
    by (rule determineScenario_maxTasks_range)
  then have z: "0 \<le> maxTasks (determineScenario decision' input')" by simp
  have a: "\<forall>plan w'.
      0 \<le> maxTasks scenario \<and>
      generatePlan ext input scenario decision context priorityHint inferredProject
        inferredLabels w = (Inr plan, w') \<longrightarrow>
      1 \<le> length (gp_tasks plan) \<and> int (length (gp_tasks plan)) \<le> maxTasks scenario"
    by (intro allI impI, elim conjE, rule generatePlan_length)
  have b: "\<forall>plan w'.
      generatePlan ext input (determineScenario decision' input') decision context priorityHint
        inferredProject inferredLabels w = (Inr plan, w') \<longrightarrow>
      1 \<le> length (gp_tasks plan) \<and>
      int (length (gp_tasks plan)) \<le> maxTasks (determineScenario decision' input')"
    by (intro allI impI, rule generatePlan_length [OF z])
  have c: "\<forall>plan w'.
      generatePlan ext input scenario decision context priorityHint inferredProject
        inferredLabels w = (Inr plan, w') \<longrightarrow> gp_tasks plan \<noteq> []"
    by (intro allI impI, drule generatePlan_Inr, auto)
  have d: "\<forall>raw w'.
      aiPlan ext input scenario decision context priorityHint inferredProject inferredLabels w
        = (Inr raw, w') \<and> plan_tasks raw = [] \<longrightarrow>
      (\<exists>msg. generatePlan ext input scenario decision context priorityHint inferredProject
                inferredLabels w = (Inl msg, w'))"
    by (intro allI impI, elim conjE, drule generatePlan_empty, auto)
  from a b c d r show ?thesis by (intro conjI) blast+
qed


theorem generatePlan_bounds_witness:
  "generatePlan
     \<lparr>mcpClient = \<lparr>connect = ret (), listTools = ret None,
                   callTool = (\<lambda>name args. throw (js ''offline'')), closeConnection = ret ()\<rparr>,
      aiIntent = (\<lambda>input. throw (js ''no model'')),
      aiPlan = (\<lambda>input scenario decision context priorityHint inferredProject inferredLabels.
         ret \<lparr>plan_summary = None,
              plan_tasks =
                [\<lparr>pt_title = js ''Call'', pt_description = None, pt_priority = Some 2,
                  pt_labels = None, pt_projectId = None, pt_project = None, pt_due = None\<rparr>,
                 \<lparr>pt_title = js ''Pack'', pt_description = None, pt_priority = None,
                  pt_labels = None, pt_projectId = None, pt_project = None, pt_due = None\<rparr>]\<rparr>),
      validUrl = (\<lambda>u. True), urlHref = (\<lambda>u. u), JSON_parse = (\<lambda>t. None),
      isDatetime = (\<lambda>t. True),
      lowerCase = asciiLower\<rparr>
     \<lparr>in_prompt = js ''Call'', in_timezone = None, in_due = None, in_preferences = None,
      in_labels = None, in_priority = None, in_maxTasks = 5\<rparr>
     (determineScenario
        \<lparr>d_intent = single_reminder, d_summary = None, d_days = None, d_keywords = None\<rparr>
        \<lparr>in_prompt = js ''Call'', in_timezone = None, in_due = None, in_preferences = None,
         in_labels = None, in_priority = None, in_maxTasks = 5\<rparr>)
     \<lparr>d_intent = single_reminder, d_summary = None, d_days = None, d_keywords = None\<rparr>
     noMetadata None None None (0::nat)
   = (Inr \<lparr>gp_summary = None,
            gp_tasks = [\<lparr>title = js ''Call'', description = None, priority = Some 2,
                         labels = None, due = None, projectId = None, projectName = None\<rparr>]\<rparr>, 0) \<and>
   1 \<le> length (gp_tasks \<lparr>gp_summary = None,
            gp_tasks = [\<lparr>title = js ''Call'', description = None, priority = Some 2,
                         labels = None, due = None, projectId = None, projectName = None\<rparr>]\<rparr>) \<and>
   int (length (gp_tasks \<lparr>gp_summary = None,
            gp_tasks = [\<lparr>title = js ''Call'', description = None, priority = Some 2,
                         labels = None, due = None, projectId = None, projectName = None\<rparr>]\<rparr>))
     \<le> maxTasks (determineScenario
        \<lparr>d_intent = single_reminder, d_summary = None, d_days = None, d_keywords = None\<rparr>
        \<lparr>in_prompt = js ''Call'', in_timezone = None, in_due = None, in_preferences = None,
         in_labels = None, in_priority = None, in_maxTasks = 5\<rparr>)"
proof -
  let ?E = "\<lparr>mcpClient = \<lparr>connect = ret (), listTools = ret None,
                   callTool = (\<lambda>name args. throw (js ''offline'')), closeConnection = ret ()\<rparr>,
      aiIntent = (\<lambda>input. throw (js ''no model'')),
      aiPlan = (\<lambda>input scenario decision context priorityHint inferredProject inferredLabels.
         ret \<lparr>plan_summary = None,
              plan_tasks =
                [\<lparr>pt_title = js ''Call'', pt_description = None, pt_priority = Some 2,
                  pt_labels = None, pt_projectId = None, pt_project = None, pt_due = None\<rparr>,
                 \<lparr>pt_title = js ''Pack'', pt_description = None, pt_priority = None,
                  pt_labels = None, pt_projectId = None, pt_project = None, pt_due = None\<rparr>]\<rparr>),
      validUrl = (\<lambda>u. True), urlHref = (\<lambda>u. u), JSON_parse = (\<lambda>t. None),
      isDatetime = (\<lambda>t. True),
      lowerCase = asciiLower\<rparr> :: nat Externals"
  let ?I = "\<lparr>in_prompt = js ''Call'', in_timezone = None, in_due = None, in_preferences = None,
      in_labels = None, in_priority = None, in_maxTasks = 5\<rparr>"
  let ?D = "\<lparr>d_intent = single_reminder, d_summary = None, d_days = None, d_keywords = None\<rparr>"
  let ?P = "\<lparr>gp_summary = None,
            gp_tasks = [\<lparr>title = js ''Call'', description = None, priority = Some 2,
                         labels = None, due = None, projectId = None, projectName = None\<rparr>]\<rparr>"
  have e: "generatePlan ?E ?I (determineScenario ?D ?I) ?D noMetadata None None None 0 = (Inr ?P, 0)"
    by (simp add: generatePlan_def bind_def ret_def throw_def fromSum_def aiPlanSchema_parse_def
        validTask_def MIN_TASKS_def determineScenario_def sliceTo_def normalizeTask_def
        resolveProjectReference_def noMetadata_def truthyStr_def clampPriority_def orElse_def
        normalizeLabels_def labelSource_def nonEmptyList_def selectDue_def chain_def trim_def
        isWhiteSpace_def js_def Let_def)
  from generatePlan_bounds [of "determineScenario ?D ?I" ?E ?I ?D noMetadata None None None 0 ?D ?I] e
  have "1 \<le> length (gp_tasks ?P) \<and> int (length (gp_tasks ?P)) \<le> maxTasks (determineScenario ?D ?I)"
    by blast
  with e show ?thesis by blast
qed

subsection \<open>The event stream\<close>

lemma quietI:
  assumes "\<And>s r s'. \<not> closed s \<Longrightarrow> m s = (r, s') \<Longrightarrow>
     \<not> closed s' \<and> (\<exists>es. queue s' = queue s @ es \<and> list_all (\<lambda>e. \<not> isTerminal e) es)"
  shows "quiet m"
  using assms unfolding quiet_def by blast

lemma quietD:
  assumes "quiet m" "\<not> closed s" "m s = (r, s')"
  shows "\<not> closed s' \<and> (\<exists>es. queue s' = queue s @ es \<and> list_all (\<lambda>e. \<not> isTerminal e) es)"
  using assms unfolding quiet_def by blast

lemma quiet_ret: "quiet (ret x)"
  by (rule quietI) (auto simp: ret_def)

lemma quiet_throw: "quiet (throw msg)"
  by (rule quietI) (auto simp: throw_def)

lemma quiet_fromSum: "quiet (fromSum r)"
  by (rule quietI) (auto simp: fromSum_def)

lemma quiet_lift: "quiet (lift call)"
  by (rule quietI) (auto simp: lift_def split: prod.splits)

lemma quiet_send: "\<not> isTerminal event \<Longrightarrow> quiet (send event)"
  by (rule quietI) (auto simp: send_def)

lemma quiet_bind:
  assumes "quiet m" "\<And>x. quiet (f x)"
  shows "quiet (bind m f)"
proof (rule quietI)
  fix s r s'
  assume o: "\<not> closed s" and b: "bind m f s = (r, s')"
  obtain r1 s1 where m: "m s = (r1, s1)" by (cases "m s")
  from quietD [OF assms(1) o m] obtain es1 where
    o1: "\<not> closed s1" and q1: "queue s1 = queue s @ es1" and n1: "list_all (\<lambda>e. \<not> isTerminal e) es1"
    by blast
  show "\<not> closed s' \<and> (\<exists>es. queue s' = queue s @ es \<and> list_all (\<lambda>e. \<not> isTerminal e) es)"
  proof (cases r1)
    case (Inl msg)
    with b m have "s' = s1" by (simp add: bind_def)
    with o1 q1 n1 show ?thesis by blast
  next
    case (Inr x)
    with b m have "f x s1 = (r, s')" by (simp add: bind_def)
    from quietD [OF assms(2) o1 this] obtain es2 where
      "\<not> closed s'" "queue s' = queue s1 @ es2" "list_all (\<lambda>e. \<not> isTerminal e) es2"
      by blast
    with q1 n1 have "\<not> closed s' \<and> queue s' = queue s @ (es1 @ es2) \<and>
        list_all (\<lambda>e. \<not> isTerminal e) (es1 @ es2)"
      by simp
    then show ?thesis by blast
  qed
qed

lemma quiet_tryCatch:
  assumes "quiet m" "\<And>msg. quiet (h msg)"
  shows "quiet (tryCatch m h)"
proof (rule quietI)
  fix s r s'
  assume o: "\<not> closed s" and b: "tryCatch m h s = (r, s')"
  obtain r1 s1 where m: "m s = (r1, s1)" by (cases "m s")
  from quietD [OF assms(1) o m] obtain es1 where
    o1: "\<not> closed s1" and q1: "queue s1 = queue s @ es1" and n1: "list_all (\<lambda>e. \<not> isTerminal e) es1"
    by blast
  show "\<not> closed s' \<and> (\<exists>es. queue s' = queue s @ es \<and> list_all (\<lambda>e. \<not> isTerminal e) es)"
  proof (cases r1)
    case (Inr x)
    with b m have "s' = s1" by (simp add: tryCatch_def)
    with o1 q1 n1 show ?thesis by blast
  next
    case (Inl msg)
    with b m have "h msg s1 = (r, s')" by (simp add: tryCatch_def)
    from quietD [OF assms(2) o1 this] obtain es2 where
      "\<not> closed s'" "queue s' = queue s1 @ es2" "list_all (\<lambda>e. \<not> isTerminal e) es2"
      by blast
    with q1 n1 have "\<not> closed s' \<and> queue s' = queue s @ (es1 @ es2) \<and>
        list_all (\<lambda>e. \<not> isTerminal e) (es1 @ es2)"
      by simp
    then show ?thesis by blast
  qed
qed

lemma quiet_listAvailableTools: "quiet (listAvailableTools client)"
proof -
  have e: "listAvailableTools client =
      bind (tryCatch (bind (lift (listTools client)) (\<lambda>t. ret (Inr t))) (\<lambda>msg. ret (Inl msg)))
        (\<lambda>r. case r of
                Inl msg \<Rightarrow> bind (send (EvDebugError (js ''tools'') msg)) (\<lambda>u. ret None)
              | Inr None \<Rightarrow> ret None
              | Inr (Some tools) \<Rightarrow>
                  tryCatch (bind (send (EvDebugTools tools)) (\<lambda>u. ret (Some tools)))
                    (\<lambda>msg. bind (send (EvDebugError (js ''tools'') msg)) (\<lambda>u. ret (Some tools))))"
    by (rule ext)
      (auto simp: listAvailableTools_def bind_def tryCatch_def ret_def
        split: prod.splits sum.splits option.splits)
  show ?thesis
    unfolding e
    by (intro quiet_bind quiet_tryCatch quiet_lift quiet_ret)
      (auto split: sum.splits option.splits
        intro!: quiet_bind quiet_tryCatch quiet_send quiet_ret)
qed

lemma quiet_recordFailure: "quiet (recordFailure task results msg)"
  unfolding recordFailure_def by (intro quiet_bind quiet_send quiet_ret) simp

lemma quiet_syncStep: "quiet (syncStep client parse toolName input task results)"
proof -
  have e: "syncStep client parse toolName input task results =
      bind (send (EvTodoistTask pending task None None))
        (\<lambda>u. bind (tryCatch (bind (lift (attemptCreate client parse toolName input task))
                               (\<lambda>p. ret (Inr p))) (\<lambda>msg. ret (Inl msg)))
           (\<lambda>r. case r of
                   Inl msg \<Rightarrow> recordFailure task results msg
                 | Inr parsed \<Rightarrow>
                     tryCatch
                       (bind (send (EvTodoistTask created task (chain parsed r_id) None))
                          (\<lambda>u'. ret (results @ [createdResult task parsed])))
                       (\<lambda>msg. recordFailure task (results @ [createdResult task parsed]) msg)))"
    by (rule ext)
      (auto simp: syncStep_def bind_def tryCatch_def ret_def
        split: prod.splits sum.splits option.splits)
  show ?thesis
    unfolding e
    by (intro quiet_bind quiet_tryCatch quiet_lift quiet_ret quiet_send)
      (auto split: sum.splits
        intro!: quiet_bind quiet_tryCatch quiet_send quiet_ret quiet_recordFailure)
qed

lemma quiet_syncLoop: "quiet (syncLoop client parse toolName input tasks results)"
proof (induction tasks arbitrary: results)
  case Nil
  show ?case by (simp add: quiet_ret)
next
  case (Cons task rest)
  show ?case
    by (simp only: syncLoop.simps) (intro quiet_bind quiet_syncStep Cons)
qed

lemma quiet_syncWithTodoist: "quiet (syncWithTodoist ext client tasks env input availableTools)"
  unfolding syncWithTodoist_def
  by (intro quiet_bind quiet_fromSum quiet_lift quiet_syncLoop)

lemma quiet_planStages: "quiet (planStages ext env data)"
  unfolding planStages_def Let_def
  by (intro quiet_bind quiet_fromSum quiet_lift quiet_send quiet_ret)
    (auto split: option.splits
      intro!: quiet_bind quiet_lift quiet_listAvailableTools quiet_syncWithTodoist quiet_ret)


lemma closeClient_total: "\<exists>w'. closeClient client w = (Inr (), w')"
proof (cases client)
  case None
  then show ?thesis by (simp add: closeClient_def ret_def)
next
  case (Some c)
  obtain r w1 where "closeConnection c w = (r, w1)" by (cases "closeConnection c w")
  with Some show ?thesis
    by (cases r) (simp_all add: closeClient_def tryCatch_def ret_def)
qed

lemma POST_protected:
  assumes "\<not> closed s"
  shows "\<exists>es t s2. tryCatch (POST_try ext env data) POST_catch s = (Inr (), s2) \<and> closed s2 \<and>
           queue s2 = queue s @ es @ [t] \<and> list_all (\<lambda>e. \<not> isTerminal e) es \<and>
           (isFinalEvent t \<or> isErrorEvent t)"
proof -
  obtain r1 s1 where p: "planStages ext env data s = (r1, s1)"
    by (cases "planStages ext env data s")
  from quietD [OF quiet_planStages assms p] obtain es where
    o1: "\<not> closed s1" and q1: "queue s1 = queue s @ es" and n1: "list_all (\<lambda>e. \<not> isTerminal e) es"
    by blast
  show ?thesis
  proof (cases r1)
    case (Inr results)
    let ?t = "EvFinal (countStatus created results) (countStatus failed results) results"
    let ?s2 = "s1\<lparr>queue := queue s1 @ [?t], closed := True\<rparr>"
    have "tryCatch (POST_try ext env data) POST_catch s = (Inr (), ?s2)"
      using p Inr o1
      by (simp add: tryCatch_def POST_try_def bind_def send_def closeController_def)
    moreover have "closed ?s2 \<and> queue ?s2 = queue s @ es @ [?t] \<and> isFinalEvent ?t"
      using q1 by simp
    ultimately show ?thesis using n1 by blast
  next
    case (Inl detail)
    let ?t = "EvError (js ''Failed to generate the plan'') detail"
    let ?s2 = "s1\<lparr>queue := queue s1 @ [?t], closed := True\<rparr>"
    have "tryCatch (POST_try ext env data) POST_catch s = (Inr (), ?s2)"
      using p Inl o1
      by (simp add: tryCatch_def POST_try_def POST_catch_def bind_def send_def closeController_def)
    moreover have "closed ?s2 \<and> queue ?s2 = queue s @ es @ [?t] \<and> isErrorEvent ?t"
      using q1 by simp
    ultimately show ?thesis using n1 by blast
  qed
qed

lemma POST_stream_shape:
  "\<exists>es t. closed (POST_stream ext env data w) \<and> queue (POST_stream ext env data w) = es @ [t] \<and>
     list_all (\<lambda>e. \<not> isTerminal e) es \<and> (isFinalEvent t \<or> isErrorEvent t)"
proof -
  let ?s0 = "\<lparr>world = w, queue = [], closed = False\<rparr>"
  have "\<not> closed ?s0" by simp
  from POST_protected [OF this, of ext env data] obtain es t s2 where
    t: "tryCatch (POST_try ext env data) POST_catch ?s0 = (Inr (), s2)" and c: "closed s2"
    and q: "queue s2 = es @ [t]" and n: "list_all (\<lambda>e. \<not> isTerminal e) es"
    and k: "isFinalEvent t \<or> isErrorEvent t"
    by auto
  obtain w' where cl: "closeClient (clientAtEnd ext env) (world s2) = (Inr (), w')"
    using closeClient_total [of "clientAtEnd ext env" "world s2"] by auto
  have "POST_stream ext env data w = s2\<lparr>world := w'\<rparr>"
    using t cl by (simp add: POST_stream_def POST_body_def lift_def)
  with c q n k show ?thesis by auto
qed

lemma final_terminal: "isFinalEvent t \<Longrightarrow> isTerminal t \<and> \<not> isErrorEvent t"
  by (cases t) simp_all

lemma error_terminal: "isErrorEvent t \<Longrightarrow> isTerminal t \<and> \<not> isFinalEvent t"
  by (cases t) simp_all

lemma filter_none: "list_all (\<lambda>e. \<not> isTerminal e) es \<Longrightarrow>
  filter isTerminal es = [] \<and> filter isFinalEvent es = [] \<and> filter isErrorEvent es = []"
proof (induction es)
  case Nil
  show ?case by simp
next
  case (Cons e es)
  then have "\<not> isTerminal e" by simp
  then have "\<not> isFinalEvent e \<and> \<not> isErrorEvent e"
    using final_terminal error_terminal by blast
  with Cons show ?case by simp
qed

text \<open>
  C3. For every outcome of the external calls, the events of the stream of a request are
  events that are not terminal followed by exactly one terminal event, which is either the
  one \<open>final\<close> event or the one \<open>error\<close> event, never both; the controller is then closed,
  and a closed controller refuses every further event. (The reader of the stream is assumed
  to stay attached.)
\<close>

theorem POST_stream_terminal:
  "closed (POST_stream ext env data w) \<and>
   (\<exists>es t. queue (POST_stream ext env data w) = es @ [t] \<and>
      list_all (\<lambda>e. \<not> isTerminal e) es \<and> isTerminal t) \<and>
   length (filter isTerminal (queue (POST_stream ext env data w))) = 1 \<and>
   (length (filter isFinalEvent (queue (POST_stream ext env data w))) = 1 \<and>
    filter isErrorEvent (queue (POST_stream ext env data w)) = [] \<or>
    filter isFinalEvent (queue (POST_stream ext env data w)) = [] \<and>
    length (filter isErrorEvent (queue (POST_stream ext env data w))) = 1) \<and>
   fst (send event (POST_stream ext env data w)) =
     Inl (js ''Invalid state: Controller is already closed'') \<and>
   snd (send event (POST_stream ext env data w)) = POST_stream ext env data w"
proof -
  from POST_stream_shape [of ext env data w] obtain es t where
    c: "closed (POST_stream ext env data w)" and q: "queue (POST_stream ext env data w) = es @ [t]"
    and n: "list_all (\<lambda>e. \<not> isTerminal e) es" and k: "isFinalEvent t \<or> isErrorEvent t"
    by blast
  from k have tt: "isTerminal t" using final_terminal error_terminal by blast
  note f = filter_none [OF n]
  have one: "length (filter isTerminal (queue (POST_stream ext env data w))) = 1"
    using q f tt by simp
  have alt: "length (filter isFinalEvent (queue (POST_stream ext env data w))) = 1 \<and>
      filter isErrorEvent (queue (POST_stream ext env data w)) = [] \<or>
      filter isFinalEvent (queue (POST_stream ext env data w)) = [] \<and>
      length (filter isErrorEvent (queue (POST_stream ext env data w))) = 1"
    using k
  proof
    assume "isFinalEvent t"
    with final_terminal [OF this] q f show ?thesis by simp
  next
    assume "isErrorEvent t"
    with error_terminal [OF this] q f show ?thesis by simp
  qed
  have s: "send event (POST_stream ext env data w) =
      (Inl (js ''Invalid state: Controller is already closed''), POST_stream ext env data w)"
    using c by (simp add: send_def)
  have ex: "\<exists>es t. queue (POST_stream ext env data w) = es @ [t] \<and>
      list_all (\<lambda>e. \<not> isTerminal e) es \<and> isTerminal t"
    using q n tt by blast
  from c ex one alt s show ?thesis by simp
qed


theorem POST_stream_terminal_witness:
  "closed (POST_stream
     \<lparr>mcpClient = \<lparr>connect = throw (js ''refused''), listTools = ret None,
                   callTool = (\<lambda>name args. throw (js ''offline'')), closeConnection = ret ()\<rparr>,
      aiIntent = (\<lambda>input. throw (js ''no model'')),
      aiPlan = (\<lambda>input scenario decision context priorityHint inferredProject inferredLabels.
         throw (js ''no model'')),
      validUrl = (\<lambda>u. True), urlHref = (\<lambda>u. u), JSON_parse = (\<lambda>t. None),
      isDatetime = (\<lambda>t. True),
      lowerCase = asciiLower\<rparr>
     \<lparr>TODOIST_MCP_URL = Some (js ''https://mcp.example/''), TODOIST_TOKEN = Some (js ''token'')\<rparr>
     \<lparr>in_prompt = js ''Call'', in_timezone = None, in_due = None, in_preferences = None,
      in_labels = None, in_priority = None, in_maxTasks = 5\<rparr> (0::nat)) \<and>
   length (filter isTerminal (queue (POST_stream
     \<lparr>mcpClient = \<lparr>connect = throw (js ''refused''), listTools = ret None,
                   callTool = (\<lambda>name args. throw (js ''offline'')), closeConnection = ret ()\<rparr>,
      aiIntent = (\<lambda>input. throw (js ''no model'')),
      aiPlan = (\<lambda>input scenario decision context priorityHint inferredProject inferredLabels.
         throw (js ''no model'')),
      validUrl = (\<lambda>u. True), urlHref = (\<lambda>u. u), JSON_parse = (\<lambda>t. None),
      isDatetime = (\<lambda>t. True),
      lowerCase = asciiLower\<rparr>
     \<lparr>TODOIST_MCP_URL = Some (js ''https://mcp.example/''), TODOIST_TOKEN = Some (js ''token'')\<rparr>
     \<lparr>in_prompt = js ''Call'', in_timezone = None, in_due = None, in_preferences = None,
      in_labels = None, in_priority = None, in_maxTasks = 5\<rparr> (0::nat)))) = 1"
  using POST_stream_terminal [of
     "\<lparr>mcpClient = \<lparr>connect = throw (js ''refused''), listTools = ret None,
                   callTool = (\<lambda>name args. throw (js ''offline'')), closeConnection = ret ()\<rparr>,
      aiIntent = (\<lambda>input. throw (js ''no model'')),
      aiPlan = (\<lambda>input scenario decision context priorityHint inferredProject inferredLabels.
         throw (js ''no model'')),
      validUrl = (\<lambda>u. True), urlHref = (\<lambda>u. u), JSON_parse = (\<lambda>t. None),
      isDatetime = (\<lambda>t. True),
      lowerCase = asciiLower\<rparr> :: nat Externals"
     "\<lparr>TODOIST_MCP_URL = Some (js ''https://mcp.example/''), TODOIST_TOKEN = Some (js ''token'')\<rparr>"
     "\<lparr>in_prompt = js ''Call'', in_timezone = None, in_due = None, in_preferences = None,
      in_labels = None, in_priority = None, in_maxTasks = 5\<rparr>" 0]
  by blast

subsection \<open>A request without a Todoist connection\<close>

lemma countStatus_unavailable:
  "countStatus created (map unavailableResult tasks) = 0 \<and>
   countStatus failed (map unavailableResult tasks) = length tasks"
  by (induction tasks) (simp_all add: countStatus_def unavailableResult_def)

lemma createTransport_null:
  "(createTransport ext env = Inr None) =
     (\<not> truthyStr (TODOIST_MCP_URL env) \<or>
      validUrl ext (orEmpty (TODOIST_MCP_URL env)) \<and> \<not> truthyStr (TODOIST_TOKEN env))"
  by (auto simp: createTransport_def ensureUrl_def split: sum.splits if_splits)

lemma createTransport_token:
  "createTransport ext env = Inr (Some transport) \<Longrightarrow> truthyStr (TODOIST_TOKEN env)"
  by (auto simp: createTransport_def split: sum.splits if_splits)

lemma planStages_unconfigured:
  assumes "createTransport ext env = Inr None"
    and "classifyIntent ext data w = (Inr decision, w1)"
    and "generatePlan ext data (determineScenario decision data) decision noMetadata
           (detectPriorityFromPrompt (lowerCase ext) (in_prompt data)) None None w1 = (Inr plan, w2)"
  shows "planStages ext env data \<lparr>world = w, queue = [], closed = False\<rparr> =
     (Inr (map unavailableResult (gp_tasks plan)),
      \<lparr>world = w2,
       queue =
         [EvStatus (js ''ai:init'') (js ''Planning tasks with Workers AI''),
          EvStatus (js ''intent:detect'') (js ''Analyzing the request intent''),
          EvStatus (js ''intent:classified'')
            (js ''Detected scenario: '' @ intentName (intent (determineScenario decision data))),
          EvDebugMetadata [] [],
          EvDebugInference None None (detectPriorityFromPrompt (lowerCase ext) (in_prompt data)),
          EvAiPlan (gp_summary plan) (gp_tasks plan) (intent (determineScenario decision data))],
       closed = False\<rparr>)"
  using assms
  by (simp add: planStages_def bind_def fromSum_def newClient_def ret_def send_def lift_def
      fetchTodoistMetadata_def inferProjectFromPrompt_def inferLabelsFromPrompt_def
      noMetadata_def Let_def)


text \<open>
  C10. When \<open>createTransport\<close> returns \<open>null\<close>, which is exactly when \<open>TODOIST_MCP_URL\<close> is
  not configured, or is a valid URL while \<open>TODOIST_TOKEN\<close> is not configured, the request is
  not rejected: when the plan is generated, the stream carries the status events, the plan,
  and a \<open>final\<close> event in which every planned task has status \<open>failed\<close> and the error text
  \<open>Todoist MCP client is unavailable\<close>, with \<open>created = 0\<close> and \<open>failed\<close> the number of
  planned tasks; no \<open>error\<close> event is sent.
\<close>

theorem POST_stream_unconfigured:
  "(createTransport ext env = Inr None) =
     (\<not> truthyStr (TODOIST_MCP_URL env) \<or>
      validUrl ext (orEmpty (TODOIST_MCP_URL env)) \<and> \<not> truthyStr (TODOIST_TOKEN env)) \<and>
   (createTransport ext env = Inr None \<and>
    classifyIntent ext data w = (Inr decision, w1) \<and>
    generatePlan ext data (determineScenario decision data) decision noMetadata
      (detectPriorityFromPrompt (lowerCase ext) (in_prompt data)) None None w1 = (Inr plan, w2) \<longrightarrow>
    POST_stream ext env data w =
      \<lparr>world = w2,
       queue =
         [EvStatus (js ''ai:init'') (js ''Planning tasks with Workers AI''),
          EvStatus (js ''intent:detect'') (js ''Analyzing the request intent''),
          EvStatus (js ''intent:classified'')
            (js ''Detected scenario: '' @ intentName (intent (determineScenario decision data))),
          EvDebugMetadata [] [],
          EvDebugInference None None (detectPriorityFromPrompt (lowerCase ext) (in_prompt data)),
          EvAiPlan (gp_summary plan) (gp_tasks plan) (intent (determineScenario decision data)),
          EvFinal 0 (length (gp_tasks plan))
            (map (\<lambda>task. \<lparr>planned = task, status = failed, todoistId = None,
                           error = Some (js ''Todoist MCP client is unavailable'')\<rparr>)
               (gp_tasks plan))],
       closed = True\<rparr>)"
proof (intro conjI impI)
  show "(createTransport ext env = Inr None) =
     (\<not> truthyStr (TODOIST_MCP_URL env) \<or>
      validUrl ext (orEmpty (TODOIST_MCP_URL env)) \<and> \<not> truthyStr (TODOIST_TOKEN env))"
    by (rule createTransport_null)
next
  assume h: "createTransport ext env = Inr None \<and>
    classifyIntent ext data w = (Inr decision, w1) \<and>
    generatePlan ext data (determineScenario decision data) decision noMetadata
      (detectPriorityFromPrompt (lowerCase ext) (in_prompt data)) None None w1 = (Inr plan, w2)"
  then have t: "createTransport ext env = Inr None" by simp
  from h have p: "planStages ext env data \<lparr>world = w, queue = [], closed = False\<rparr> =
     (Inr (map unavailableResult (gp_tasks plan)),
      \<lparr>world = w2,
       queue =
         [EvStatus (js ''ai:init'') (js ''Planning tasks with Workers AI''),
          EvStatus (js ''intent:detect'') (js ''Analyzing the request intent''),
          EvStatus (js ''intent:classified'')
            (js ''Detected scenario: '' @ intentName (intent (determineScenario decision data))),
          EvDebugMetadata [] [],
          EvDebugInference None None (detectPriorityFromPrompt (lowerCase ext) (in_prompt data)),
          EvAiPlan (gp_summary plan) (gp_tasks plan) (intent (determineScenario decision data))],
       closed = False\<rparr>)"
    using planStages_unconfigured [of ext env data w decision w1 plan w2] by simp
  have u: "map unavailableResult (gp_tasks plan) =
      map (\<lambda>task. \<lparr>planned = task, status = failed, todoistId = None,
                     error = Some (js ''Todoist MCP client is unavailable'')\<rparr>) (gp_tasks plan)"
    by (simp add: unavailableResult_def)
  show "POST_stream ext env data w =
      \<lparr>world = w2,
       queue =
         [EvStatus (js ''ai:init'') (js ''Planning tasks with Workers AI''),
          EvStatus (js ''intent:detect'') (js ''Analyzing the request intent''),
          EvStatus (js ''intent:classified'')
            (js ''Detected scenario: '' @ intentName (intent (determineScenario decision data))),
          EvDebugMetadata [] [],
          EvDebugInference None None (detectPriorityFromPrompt (lowerCase ext) (in_prompt data)),
          EvAiPlan (gp_summary plan) (gp_tasks plan) (intent (determineScenario decision data)),
          EvFinal 0 (length (gp_tasks plan))
            (map (\<lambda>task. \<lparr>planned = task, status = failed, todoistId = None,
                           error = Some (js ''Todoist MCP client is unavailable'')\<rparr>)
               (gp_tasks plan))],
       closed = True\<rparr>"
    using p t countStatus_unavailable [of "gp_tasks plan"]
    by (simp add: POST_stream_def POST_body_def tryCatch_def POST_try_def bind_def send_def
        closeController_def lift_def clientAtEnd_def newClient_def closeClient_def ret_def u)
qed

theorem POST_stream_unconfigured_witness:
  "queue (POST_stream
     \<lparr>mcpClient = \<lparr>connect = ret (), listTools = ret None,
                   callTool = (\<lambda>name args. throw (js ''offline'')), closeConnection = ret ()\<rparr>,
      aiIntent = (\<lambda>input. throw (js ''no model'')),
      aiPlan = (\<lambda>input scenario decision context priorityHint inferredProject inferredLabels.
         ret \<lparr>plan_summary = None,
              plan_tasks =
                [\<lparr>pt_title = js ''Call'', pt_description = None, pt_priority = Some 2,
                  pt_labels = None, pt_projectId = None, pt_project = None, pt_due = None\<rparr>,
                 \<lparr>pt_title = js ''Pack'', pt_description = None, pt_priority = None,
                  pt_labels = None, pt_projectId = None, pt_project = None, pt_due = None\<rparr>]\<rparr>),
      validUrl = (\<lambda>u. True), urlHref = (\<lambda>u. u), JSON_parse = (\<lambda>t. None),
      isDatetime = (\<lambda>t. True),
      lowerCase = asciiLower\<rparr>
     \<lparr>TODOIST_MCP_URL = Some (js ''https://mcp.example/''), TODOIST_TOKEN = None\<rparr>
     \<lparr>in_prompt = js ''Call'', in_timezone = None, in_due = None, in_preferences = None,
      in_labels = None, in_priority = None, in_maxTasks = 5\<rparr> (0::nat)) ! 6
   = EvFinal 0 2
       [\<lparr>planned = \<lparr>title = js ''Call'', description = None, priority = Some 2, labels = None,
                     due = None, projectId = None, projectName = None\<rparr>,
         status = failed, todoistId = None,
         error = Some (js ''Todoist MCP client is unavailable'')\<rparr>,
        \<lparr>planned = \<lparr>title = js ''Pack'', description = None, priority = None, labels = None,
                     due = None, projectId = None, projectName = None\<rparr>,
         status = failed, todoistId = None,
         error = Some (js ''Todoist MCP client is unavailable'')\<rparr>]"
proof -
  let ?E = "\<lparr>mcpClient = \<lparr>connect = ret (), listTools = ret None,
                   callTool = (\<lambda>name args. throw (js ''offline'')), closeConnection = ret ()\<rparr>,
      aiIntent = (\<lambda>input. throw (js ''no model'')),
      aiPlan = (\<lambda>input scenario decision context priorityHint inferredProject inferredLabels.
         ret \<lparr>plan_summary = None,
              plan_tasks =
                [\<lparr>pt_title = js ''Call'', pt_description = None, pt_priority = Some 2,
                  pt_labels = None, pt_projectId = None, pt_project = None, pt_due = None\<rparr>,
                 \<lparr>pt_title = js ''Pack'', pt_description = None, pt_priority = None,
                  pt_labels = None, pt_projectId = None, pt_project = None, pt_due = None\<rparr>]\<rparr>),
      validUrl = (\<lambda>u. True), urlHref = (\<lambda>u. u), JSON_parse = (\<lambda>t. None),
      isDatetime = (\<lambda>t. True),
      lowerCase = asciiLower\<rparr> :: nat Externals"
  let ?env = "\<lparr>TODOIST_MCP_URL = Some (js ''https://mcp.example/''), TODOIST_TOKEN = None\<rparr>"
  let ?I = "\<lparr>in_prompt = js ''Call'', in_timezone = None, in_due = None, in_preferences = None,
      in_labels = None, in_priority = None, in_maxTasks = 5\<rparr>"
  let ?D = "\<lparr>d_intent = general_plan,
      d_summary = Some (js ''Fallback because classification failed''),
      d_days = None, d_keywords = None\<rparr>"
  let ?P = "\<lparr>gp_summary = None,
      gp_tasks = [\<lparr>title = js ''Call'', description = None, priority = Some 2, labels = None,
                   due = None, projectId = None, projectName = None\<rparr>,
                  \<lparr>title = js ''Pack'', description = None, priority = None, labels = None,
                   due = None, projectId = None, projectName = None\<rparr>]\<rparr>"
  have a: "createTransport ?E ?env = Inr None"
    by (simp add: createTransport_def ensureUrl_def truthyStr_def orEmpty_def js_def)
  have b: "classifyIntent ?E ?I 0 = (Inr ?D, 0)"
    by (simp add: classifyIntent_def tryCatch_def throw_def ret_def)
  have hint: "detectPriorityFromPrompt (lowerCase ?E) (in_prompt ?I) = None"
    by (simp add: c1_eval)
  have c: "generatePlan ?E ?I (determineScenario ?D ?I) ?D noMetadata
      (detectPriorityFromPrompt (lowerCase ?E) (in_prompt ?I)) None None 0 = (Inr ?P, 0)"
    unfolding hint
    by (simp add: generatePlan_def bind_def ret_def throw_def fromSum_def aiPlanSchema_parse_def
        validTask_def MIN_TASKS_def MAX_TASKS_def clampMax_def determineScenario_def sliceTo_def
        normalizeTask_def resolveProjectReference_def noMetadata_def truthyStr_def
        clampPriority_def orElse_def normalizeLabels_def labelSource_def nonEmptyList_def
        selectDue_def chain_def trim_def isWhiteSpace_def js_def Let_def)
  from POST_stream_unconfigured [of ?E ?env ?I 0 ?D 0 ?P 0] a b c
  have "POST_stream ?E ?env ?I 0 =
      \<lparr>world = 0,
       queue =
         [EvStatus (js ''ai:init'') (js ''Planning tasks with Workers AI''),
          EvStatus (js ''intent:detect'') (js ''Analyzing the request intent''),
          EvStatus (js ''intent:classified'')
            (js ''Detected scenario: '' @ intentName (intent (determineScenario ?D ?I))),
          EvDebugMetadata [] [],
          EvDebugInference None None (detectPriorityFromPrompt (lowerCase ?E) (in_prompt ?I)),
          EvAiPlan (gp_summary ?P) (gp_tasks ?P) (intent (determineScenario ?D ?I)),
          EvFinal 0 (length (gp_tasks ?P))
            (map (\<lambda>task. \<lparr>planned = task, status = failed, todoistId = None,
                           error = Some (js ''Todoist MCP client is unavailable'')\<rparr>)
               (gp_tasks ?P))],
       closed = True\<rparr>"
    by blast
  then show ?thesis by simp
qed


end
